theory Spec2Isabelle
  imports Complex_Main "HOL-Library.Multiset"
begin

section \<open>The translation evaluator of sentence\_transformers\<close>

text \<open>
  A shallow embedding of \<^verbatim>\<open>sentence_transformers/evaluation/TranslationEvaluator.py\<close>.
  The class \<^verbatim>\<open>TranslationEvaluator\<close> has a constructor and one operation,
  \<^verbatim>\<open>__call__\<close>. Floating-point numbers are idealised as \<^typ>\<open>real\<close>; an exception is a
  value of the type \<open>error\<close>; everything \<^verbatim>\<open>__call__\<close> prints, logs or writes is kept in
  an explicit record of the outside world that the call takes and returns: the console,
  the log, the calls of the encoder and the file system.
\<close>

subsection \<open>Errors, embeddings, arrays\<close>

datatype error =
    AssertionError
  | RuntimeError
  | ValueError
  | IndexError
  | ZeroDivisionError
  | OSError
  | EncoderError

text \<open>An embedding is a one-dimensional tensor; the encoder returns a list of them.\<close>

type_synonym vec = "real list"

text \<open>
  A two-dimensional array (a stacked tensor, or the numpy array of similarities): its rows,
  and the number of columns, which the rows alone do not give when there is no row.
\<close>

record array2 =
  ncols :: nat
  rows :: "vec list"

definition py_index :: "'a list \<Rightarrow> nat \<Rightarrow> error + 'a" where
  \<comment> \<open>\<^verbatim>\<open>xs[i]\<close> for an index that is not negative: out of range raises.\<close>
  "py_index xs i = (if i < length xs then Inr (xs ! i) else Inl IndexError)"

definition py_div :: "nat \<Rightarrow> nat \<Rightarrow> error + real" where
  \<comment> \<open>\<^verbatim>\<open>a / b\<close> on two Python integers: true division, raising on a zero divisor.\<close>
  "py_div a b = (if b = 0 then Inl ZeroDivisionError else Inr (real a / real b))"

definition torch_stack :: "vec list \<Rightarrow> error + array2" where
  \<comment> \<open>\<^verbatim>\<open>torch.stack\<close> of a list of one-dimensional tensors: the library refuses an empty
      list and tensors of different sizes.\<close>
  "torch_stack es =
     (case es of
        [] \<Rightarrow> Inl RuntimeError
      | e # _ \<Rightarrow>
          if list_all (\<lambda>v. length v = length e) es
          then Inr \<lparr>ncols = length e, rows = es\<rparr>
          else Inl RuntimeError)"

definition dot :: "vec \<Rightarrow> vec \<Rightarrow> real" where
  "dot u v = sum_list (map (\<lambda>(x, y). x * y) (zip u v))"

definition l2_norm :: "vec \<Rightarrow> real" where
  "l2_norm u = sqrt (dot u u)"

definition cosine :: "vec \<Rightarrow> vec \<Rightarrow> real" where
  \<comment> \<open>Modelled from the spec: the entry of \<^verbatim>\<open>pytorch_cos_sim\<close>, which is defined in
      \<^verbatim>\<open>sentence_transformers/util.py\<close> and is not among the sources. The spec: the dot
      product of the two vectors divided by the product of their Euclidean norms; defined
      as 0 when either norm is 0.\<close>
  "cosine u v =
     (if l2_norm u = 0 \<or> l2_norm v = 0 then 0
      else dot u v / (l2_norm u * l2_norm v))"

definition pytorch_cos_sim :: "array2 \<Rightarrow> array2 \<Rightarrow> error + array2" where
  \<comment> \<open>Modelled from the spec: \<^verbatim>\<open>pytorch_cos_sim\<close> of \<^verbatim>\<open>sentence_transformers/util.py\<close>, which
      is not among the sources. The spec: the matrix with \<open>cos_sims[i][j]\<close> the cosine
      similarity of source embedding \<open>i\<close> and target embedding \<open>j\<close>. Two matrices whose
      rows have different sizes cannot be multiplied.\<close>
  "pytorch_cos_sim a b =
     (if ncols a \<noteq> ncols b then Inl RuntimeError
      else Inr \<lparr>ncols = length (rows b),
                rows = map (\<lambda>u. map (\<lambda>v. cosine u v) (rows b)) (rows a)\<rparr>)"

definition similarity_matrix :: "vec list \<Rightarrow> vec list \<Rightarrow> error + array2" where
  \<comment> \<open>Line 68: \<^verbatim>\<open>pytorch_cos_sim(torch.stack(embeddings1), torch.stack(embeddings2))\<close>.\<close>
  "similarity_matrix embeddings1 embeddings2 =
     (case torch_stack embeddings1 of
        Inl e \<Rightarrow> Inl e
      | Inr a \<Rightarrow>
          (case torch_stack embeddings2 of
             Inl e \<Rightarrow> Inl e
           | Inr b \<Rightarrow> pytorch_cos_sim a b))"

fun argmax_from :: "real \<Rightarrow> nat \<Rightarrow> nat \<Rightarrow> real list \<Rightarrow> nat" where
  \<comment> \<open>The scan of \<^verbatim>\<open>np.argmax\<close>: the best value so far, its index, the next index.\<close>
  "argmax_from best bi i [] = bi"
| "argmax_from best bi i (x # xs) =
     (if best < x then argmax_from x i (Suc i) xs else argmax_from best bi (Suc i) xs)"

definition np_argmax :: "real list \<Rightarrow> error + nat" where
  \<comment> \<open>\<^verbatim>\<open>np.argmax\<close> of a one-dimensional array: the first index of the largest entry; an
      empty array raises.\<close>
  "np_argmax xs = (case xs of [] \<Rightarrow> Inl ValueError | x # ys \<Rightarrow> Inr (argmax_from x 0 1 ys))"

definition np_T :: "array2 \<Rightarrow> array2" where
  \<comment> \<open>\<^verbatim>\<open>cos_sims.T\<close>: column \<open>j\<close> becomes row \<open>j\<close>.\<close>
  "np_T a = \<lparr>ncols = length (rows a),
            rows = map (\<lambda>j. map (\<lambda>r. r ! j) (rows a)) [0..<ncols a]\<rparr>"

subsection \<open>What is printed, logged and written\<close>

datatype tok =
    Str string
  | Dec int
  | Num real
  | Fmt nat real
  | NdArray "real list"
  | PyList "real list"
  | Cat tok tok

text \<open>
  A printed line is the list of the arguments of \<^verbatim>\<open>print\<close>; a logged line is the list of
  the pieces of the message. \<open>Num x\<close> is a number printed as it is, \<open>Fmt k x\<close> a number
  formatted with \<open>k\<close> decimals, \<open>Cat\<close> the concatenation of two strings. A row of the CSV
  file is the list of its fields.
\<close>

type_synonym line = "tok list"

datatype node = Dir | File "line list"

record world =
  console :: "line list"
  log_lines :: "line list"
  encode_calls :: "(string list \<times> bool \<times> int) list"
  fs :: "string \<rightharpoonup> node"

definition logger_info :: "line \<Rightarrow> world \<Rightarrow> world" where
  "logger_info l w = w\<lparr>log_lines := log_lines w @ [l]\<rparr>"

definition prints :: "line list \<Rightarrow> world \<Rightarrow> world" where
  "prints ls w = w\<lparr>console := console w @ ls\<rparr>"

definition note_encode :: "string list \<Rightarrow> bool \<Rightarrow> int \<Rightarrow> world \<Rightarrow> world" where
  \<comment> \<open>The record of a call of \<^verbatim>\<open>model.encode\<close>: its sentences, progress flag and batch size.\<close>
  "note_encode ss spb bs w = w\<lparr>encode_calls := encode_calls w @ [(ss, spb, bs)]\<rparr>"

subsection \<open>The evaluator and its constructor\<close>

record evaluator =
  source_sentences :: "string list"
  target_sentences :: "string list"
  name :: string
  batch_size :: int
  show_progress_bar :: bool
  print_wrong_matches :: bool
  csv_file :: string
  csv_headers :: "string list"
  write_csv :: bool

definition init ::
  "string list \<Rightarrow> string list \<Rightarrow> bool \<Rightarrow> int \<Rightarrow> string \<Rightarrow> bool \<Rightarrow> bool \<Rightarrow> error + evaluator" where
  \<comment> \<open>\<^verbatim>\<open>__init__(source_sentences, target_sentences, show_progress_bar, batch_size, name,
      print_wrong_matches, write_csv)\<close>: the assertion of line 44, then the file name.\<close>
  "init src trg spb bs nm pwm wcsv =
     (if length src \<noteq> length trg then Inl AssertionError
      else Inr \<lparr>source_sentences = src,
                target_sentences = trg,
                name = nm,
                batch_size = bs,
                show_progress_bar = spb,
                print_wrong_matches = pwm,
                csv_file = ''translation_evaluation'' @ (if nm \<noteq> [] then ''_'' @ nm else nm)
                           @ ''_results.csv'',
                csv_headers = [''epoch'', ''steps'', ''src2trg'', ''trg2src''],
                write_csv = wcsv\<rparr>)"

subsection \<open>The encoder\<close>

text \<open>
  The model is any object with \<^verbatim>\<open>encode(sentences, show_progress_bar, batch_size,
  convert_to_numpy=False)\<close>: here a function of the sentences, the progress flag and the
  batch size that returns the embeddings or fails.
\<close>

type_synonym encoder = "string list \<Rightarrow> bool \<Rightarrow> int \<Rightarrow> error + vec list"

subsection \<open>The two loops\<close>

definition py_sorted_desc :: "(nat \<times> real) list \<Rightarrow> (nat \<times> real) list" where
  \<comment> \<open>\<^verbatim>\<open>sorted(results, key=lambda x: x[1], reverse=True)\<close>: Python's sort is stable, also
      when reversed, so it is the stable sort by the negated score.\<close>
  "py_sorted_desc results = sort_key (\<lambda>x. - snd x) results"

fun candidate_lines :: "evaluator \<Rightarrow> (nat \<times> real) list \<Rightarrow> line list \<Rightarrow> (error + unit) \<times> line list" where
  \<comment> \<open>Lines 86 and 87: one line for each of the best candidates.\<close>
  "candidate_lines ev [] out = (Inr (), out)"
| "candidate_lines ev ((idx, s) # rest) out =
     (case py_index (target_sentences ev) idx of
        Inl e \<Rightarrow> (Inl e, out)
      | Inr t \<Rightarrow>
          candidate_lines ev rest
            (out @ [[Str [CHR 0x09], Dec (int idx), Cat (Str ''(Score: '') (Cat (Fmt 4 s) (Str '')'')), Str t]]))"

definition wrong_match_lines ::
  "evaluator \<Rightarrow> array2 \<Rightarrow> nat \<Rightarrow> nat \<Rightarrow> (error + unit) \<times> line list" where
  \<comment> \<open>Lines 79 to 87, for row \<open>i\<close> whose largest entry is at \<open>max_idx\<close>: what is printed,
      up to the first access that raises.\<close>
  "wrong_match_lines ev cos_sims i max_idx =
     (let l1 = [Str ''i:'', Dec (int i), Str ''j:'', Dec (int max_idx),
                Str (if i \<noteq> max_idx then ''INCORRECT'' else ''CORRECT'')] in
      (case py_index (source_sentences ev) i of
         Inl e \<Rightarrow> (Inl e, [l1])
       | Inr s \<Rightarrow>
      (let l2 = [Str ''Src:'', Str s] in
      (case py_index (target_sentences ev) max_idx of
         Inl e \<Rightarrow> (Inl e, [l1, l2])
       | Inr t \<Rightarrow>
      (let l3 = [Str ''Trg:'', Str t] in
      (case py_index (rows cos_sims ! i) max_idx of
         Inl e \<Rightarrow> (Inl e, [l1, l2, l3])
       | Inr a \<Rightarrow>
      (case py_index (rows cos_sims ! i) i of
         Inl e \<Rightarrow> (Inl e, [l1, l2, l3])
       | Inr c \<Rightarrow>
      (let l4 = [Str ''Argmax score:'', Num a, Str ''vs. correct score:'', Num c];
           results = zip [0..<length (rows cos_sims ! i)] (rows cos_sims ! i);
           results = py_sorted_desc results
       in candidate_lines ev (take 5 results) [l1, l2, l3, l4]))))))))"

fun src2trg_loop ::
  "evaluator \<Rightarrow> array2 \<Rightarrow> nat list \<Rightarrow> nat \<Rightarrow> line list \<Rightarrow> (error + nat) \<times> line list" where
  \<comment> \<open>Lines 73 to 87, over the indices still to visit, all of them below
      \<^verbatim>\<open>len(cos_sims)\<close>: the count of correct rows and the lines printed so far.\<close>
  "src2trg_loop ev cos_sims [] correct out = (Inr correct, out)"
| "src2trg_loop ev cos_sims (i # is) correct out =
     (case np_argmax (rows cos_sims ! i) of
        Inl e \<Rightarrow> (Inl e, out)
      | Inr max_idx \<Rightarrow>
          if i = max_idx then src2trg_loop ev cos_sims is (correct + 1) out
          else if print_wrong_matches ev then
            (case wrong_match_lines ev cos_sims i max_idx of
               (Inl e, ls) \<Rightarrow> (Inl e, out @ ls)
             | (Inr u, ls) \<Rightarrow> src2trg_loop ev cos_sims is correct (out @ ls))
          else src2trg_loop ev cos_sims is correct out)"

fun trg2src_loop :: "array2 \<Rightarrow> nat list \<Rightarrow> nat \<Rightarrow> error + nat" where
  \<comment> \<open>Lines 92 to 95, on the transposed array.\<close>
  "trg2src_loop cos_sims [] correct = Inr correct"
| "trg2src_loop cos_sims (i # is) correct =
     (case np_argmax (rows cos_sims ! i) of
        Inl e \<Rightarrow> Inl e
      | Inr max_idx \<Rightarrow>
          if i = max_idx then trg2src_loop cos_sims is (correct + 1)
          else trg2src_loop cos_sims is correct)"

subsection \<open>The four statistics of the flattened embeddings\<close>

definition flatten :: "vec list \<Rightarrow> vec" where
  \<comment> \<open>\<^verbatim>\<open>np.asarray([...]).reshape(1, -1)\<close>: the one row that holds all the embeddings,
      one after the other.\<close>
  "flatten es = concat es"

definition check_paired_arrays :: "vec \<Rightarrow> vec \<Rightarrow> error + unit" where
  \<comment> \<open>The check that the paired distances of scikit-learn start with, on two arrays of one
      row each: at least one feature, and the same shape.\<close>
  "check_paired_arrays x y =
     (if length x = 0 \<or> length y = 0 \<or> length x \<noteq> length y then Inl ValueError else Inr ())"

definition sk_normalize :: "vec \<Rightarrow> vec" where
  \<comment> \<open>\<^verbatim>\<open>sklearn.preprocessing.normalize\<close>: division by the norm, a norm of 0 replaced by 1.\<close>
  "sk_normalize x = (let n = l2_norm x; n = (if n = 0 then 1 else n) in map (\<lambda>a. a / n) x)"

definition sq_dist :: "vec \<Rightarrow> vec \<Rightarrow> real" where
  "sq_dist x y = sum_list (map (\<lambda>(a, b). (a - b) * (a - b)) (zip x y))"

definition paired_cosine_distances :: "vec \<Rightarrow> vec \<Rightarrow> real" where
  "paired_cosine_distances x y = 0.5 * sq_dist (sk_normalize x) (sk_normalize y)"

definition paired_manhattan_distances :: "vec \<Rightarrow> vec \<Rightarrow> real" where
  "paired_manhattan_distances x y = sum_list (map (\<lambda>(a, b). \<bar>a - b\<bar>) (zip x y))"

definition paired_euclidean_distances :: "vec \<Rightarrow> vec \<Rightarrow> real" where
  "paired_euclidean_distances x y = sqrt (sq_dist x y)"

record statistics =
  cosine_scores :: "real list"
  manhattan_distances :: "real list"
  euclidean_distances :: "real list"
  dot_products :: "real list"

definition diagnostics :: "vec list \<Rightarrow> vec list \<Rightarrow> error + statistics" where
  \<comment> \<open>Lines 121 to 127. Each array has one row, so each statistic has one entry.\<close>
  "diagnostics embeddings1 embeddings2 =
     (let x = flatten embeddings1; y = flatten embeddings2 in
      case check_paired_arrays x y of
        Inl e \<Rightarrow> Inl e
      | Inr u \<Rightarrow>
          Inr \<lparr>cosine_scores = [1 - paired_cosine_distances x y],
               manhattan_distances = [- paired_manhattan_distances x y],
               euclidean_distances = [- paired_euclidean_distances x y],
               dot_products = [dot x y]\<rparr>)"

definition diagnostic_lines :: "statistics \<Rightarrow> line list" where
  \<comment> \<open>Lines 129 to 132.\<close>
  "diagnostic_lines st =
     [[Cat (Str ''Cosine-Similarity :'') (NdArray (cosine_scores st))],
      [Cat (Str ''Manhattan-Distance :'') (NdArray (manhattan_distances st))],
      [Cat (Str ''Euclidean-Distance :'') (NdArray (euclidean_distances st))],
      [Cat (Str ''Dot-Product-Similarity :'') (PyList (dot_products st))]]"

subsection \<open>The CSV file\<close>

definition os_path_join :: "string \<Rightarrow> string \<Rightarrow> string" where
  \<comment> \<open>\<^verbatim>\<open>os.path.join\<close> of two components, on POSIX.\<close>
  "os_path_join a b =
     (if b \<noteq> [] \<and> hd b = CHR ''/'' then b
      else if a = [] \<or> last a = CHR ''/'' then a @ b
      else a @ ''/'' @ b)"

definition os_path_dirname :: "string \<Rightarrow> string" where
  \<comment> \<open>\<^verbatim>\<open>os.path.dirname\<close> on POSIX: what stands before the last slash, without its
      trailing slashes unless it is made of slashes only.\<close>
  "os_path_dirname p =
     (let head = rev (dropWhile (\<lambda>c. c \<noteq> CHR ''/'') (rev p)) in
      if head \<noteq> [] \<and> \<not> list_all (\<lambda>c. c = CHR ''/'') head
      then rev (dropWhile (\<lambda>c. c = CHR ''/'') (rev head))
      else head)"

definition os_path_isfile :: "world \<Rightarrow> string \<Rightarrow> bool" where
  "os_path_isfile w p = (case fs w p of Some (File content) \<Rightarrow> True | _ \<Rightarrow> False)"

definition is_dir :: "world \<Rightarrow> string \<Rightarrow> bool" where
  \<comment> \<open>The empty name is the current directory.\<close>
  "is_dir w d = (d = [] \<or> fs w d = Some Dir)"

datatype mode = Append | Write

definition py_open :: "world \<Rightarrow> string \<Rightarrow> mode \<Rightarrow> error + line list" where
  \<comment> \<open>\<^verbatim>\<open>open(path, mode="a")\<close> and \<^verbatim>\<open>open(path, mode="w")\<close>: the rows that the file
      starts with, those it has when appending and none when writing. A directory cannot
      be opened; a file that does not exist is created, which needs its directory.\<close>
  "py_open w p m =
     (case fs w p of
        Some Dir \<Rightarrow> Inl OSError
      | Some (File content) \<Rightarrow> Inr (case m of Append \<Rightarrow> content | Write \<Rightarrow> [])
      | None \<Rightarrow> if is_dir w (os_path_dirname p) then Inr [] else Inl OSError)"

definition write_results ::
  "evaluator \<Rightarrow> string option \<Rightarrow> int \<Rightarrow> int \<Rightarrow> real \<Rightarrow> real \<Rightarrow> world \<Rightarrow> error + world" where
  \<comment> \<open>Lines 139 to 147: the rows written are in the file when it is closed.\<close>
  "write_results ev output_path epoch steps acc_src2trg acc_trg2src w =
     (case output_path of
        None \<Rightarrow> Inr w
      | Some dir \<Rightarrow>
          if \<not> write_csv ev then Inr w
          else
            (let csv_path = os_path_join dir (csv_file ev);
                 output_file_exists = os_path_isfile w csv_path
             in case py_open w csv_path (if output_file_exists then Append else Write) of
                  Inl e \<Rightarrow> Inl e
                | Inr f \<Rightarrow>
                    (let f = (if \<not> output_file_exists then f @ [map Str (csv_headers ev)] else f);
                         f = f @ [[Dec epoch, Dec steps, Num acc_src2trg, Num acc_trg2src]]
                     in Inr (w\<lparr>fs := (fs w)(csv_path \<mapsto> File f)\<rparr>))))"

subsection \<open>The evaluation\<close>

definition out_txt :: "int \<Rightarrow> int \<Rightarrow> line" where
  \<comment> \<open>Lines 54 to 60.\<close>
  "out_txt epoch steps =
     (if epoch \<noteq> - 1 then
        if steps = - 1 then [Str '' after epoch '', Dec epoch, Str '':'']
        else [Str '' in epoch '', Dec epoch, Str '' after '', Dec steps, Str '' steps:'']
      else [Str '':''])"

text \<open>
  The result of a call that returns: the value returned, \<open>score\<close>, and the two local
  variables it is computed from, which the call also logs and writes to the CSV file.
\<close>

record outcome =
  acc_src2trg :: real
  acc_trg2src :: real
  score :: real

definition call ::
  "evaluator \<Rightarrow> encoder \<Rightarrow> string option \<Rightarrow> int \<Rightarrow> int \<Rightarrow> world \<Rightarrow> (error + outcome) \<times> world" where
  \<comment> \<open>\<^verbatim>\<open>__call__(model, output_path, epoch, steps)\<close>.\<close>
  "call ev model output_path epoch steps w =
     (let w0 = logger_info
                 ([Str ''Evaluating translation matching Accuracy on '', Str (name ev),
                   Str '' dataset''] @ out_txt epoch steps) w;
          w1 = note_encode (source_sentences ev) (show_progress_bar ev) (batch_size ev) w0 in
      (case model (source_sentences ev) (show_progress_bar ev) (batch_size ev) of
         Inl e \<Rightarrow> (Inl e, w1)
       | Inr embeddings1 \<Rightarrow>
      (let w2 = note_encode (target_sentences ev) (show_progress_bar ev) (batch_size ev) w1 in
      (case model (target_sentences ev) (show_progress_bar ev) (batch_size ev) of
         Inl e \<Rightarrow> (Inl e, w2)
       | Inr embeddings2 \<Rightarrow>
      (case similarity_matrix embeddings1 embeddings2 of
         Inl e \<Rightarrow> (Inl e, w2)
       | Inr cos_sims \<Rightarrow>
      (case src2trg_loop ev cos_sims [0..<length (rows cos_sims)] 0 [] of
         (Inl e, out) \<Rightarrow> (Inl e, prints out w2)
       | (Inr correct_src2trg, out) \<Rightarrow>
      (let w3 = prints out w2;
           cos_sims = np_T cos_sims in
      (case trg2src_loop cos_sims [0..<length (rows cos_sims)] 0 of
         Inl e \<Rightarrow> (Inl e, w3)
       | Inr correct_trg2src \<Rightarrow>
      (case py_div correct_src2trg (length (rows cos_sims)) of
         Inl e \<Rightarrow> (Inl e, w3)
       | Inr acc1 \<Rightarrow>
      (case py_div correct_trg2src (length (rows cos_sims)) of
         Inl e \<Rightarrow> (Inl e, w3)
       | Inr acc2 \<Rightarrow>
      (let w4 = logger_info [Str ''Accuracy src2trg: '', Fmt 2 (acc1 * 100)] w3;
           w5 = logger_info [Str ''Accuracy trg2src: '', Fmt 2 (acc2 * 100)] w4;
           w6 = logger_info [Str ''Evaluating translation similarity''] w5 in
      (case diagnostics embeddings1 embeddings2 of
         Inl e \<Rightarrow> (Inl e, w6)
       | Inr st \<Rightarrow>
      (let w7 = prints (diagnostic_lines st) w6 in
      (case write_results ev output_path epoch steps acc1 acc2 w7 of
         Inl e \<Rightarrow> (Inl e, w7)
       | Inr w8 \<Rightarrow>
          (Inr \<lparr>acc_src2trg = acc1, acc_trg2src = acc2, score = (acc1 + acc2) / 2\<rparr>,
           w8)))))))))))))))"

subsection \<open>The evaluation with the similarity function as a parameter\<close>



text \<open>
  A similarity function as a floating-point library may compute it: the cosine of the
  specification, but for one ordered pair of vectors, where the result is one unit in the
  last place of a 32-bit number lower. It is within \<open>1 / 2 ^ 24\<close> of the cosine everywhere, and
  it is not symmetric.
\<close>

definition rounded_cosine :: "vec \<Rightarrow> vec \<Rightarrow> real" where
  "rounded_cosine u v =
     (if u = [1, 0] \<and> v = [3, 4] then cosine u v - 1 / 2 ^ 24 else cosine u v)"


subsection \<open>Clients of the evaluator\<close>

text \<open>
  Several calls of one evaluator with one output path, one after the other; the first
  exception ends the run. A call is given by its model, epoch and steps.
\<close>

fun calls ::
  "evaluator \<Rightarrow> string option \<Rightarrow> (encoder \<times> int \<times> int) list \<Rightarrow> world
     \<Rightarrow> (error + outcome list) \<times> world" where
  "calls ev output_path [] w = (Inr [], w)"
| "calls ev output_path ((model, epoch, steps) # rest) w =
     (case call ev model output_path epoch steps w of
        (Inl e, w') \<Rightarrow> (Inl e, w')
      | (Inr out, w') \<Rightarrow>
          (case calls ev output_path rest w' of
             (Inl e, w'') \<Rightarrow> (Inl e, w'')
           | (Inr outs, w'') \<Rightarrow> (Inr (out # outs), w'')))"

text \<open>
  A client that constructs an evaluator and calls it at once. A constructor that raises
  ends the program there: the world is as it was.
\<close>

definition construct_and_call ::
  "string list \<Rightarrow> string list \<Rightarrow> bool \<Rightarrow> int \<Rightarrow> string \<Rightarrow> bool \<Rightarrow> bool \<Rightarrow> encoder
     \<Rightarrow> string option \<Rightarrow> int \<Rightarrow> int \<Rightarrow> world \<Rightarrow> (error + outcome) \<times> world" where
  "construct_and_call src trg spb bs nm pwm wcsv model output_path epoch steps w =
     (case init src trg spb bs nm pwm wcsv of
        Inl e \<Rightarrow> (Inl e, w)
      | Inr ev \<Rightarrow> call ev model output_path epoch steps w)"

text \<open>The row that a call with the given epoch and steps and the given outcome appends.\<close>

definition csv_row :: "(encoder \<times> int \<times> int) \<times> outcome \<Rightarrow> line" where
  "csv_row c = [Dec (fst (snd (fst c))), Dec (snd (snd (fst c))),
                Num (acc_src2trg (snd c)), Num (acc_trg2src (snd c))]"

subsection \<open>The vocabulary of the specification\<close>

text \<open>
  The argmax of the specification: \<open>k\<close> is the first index of \<open>xs\<close> that achieves the
  maximum.
\<close>

definition first_max :: "real list \<Rightarrow> nat \<Rightarrow> bool" where
  "first_max xs k =
     (k < length xs \<and> (\<forall>j < length xs. xs ! j \<le> xs ! k) \<and> (\<forall>j < k. xs ! j < xs ! k))"

text \<open>The number of rows \<open>i\<close> of an array whose first maximum is at \<open>i\<close>.\<close>

definition matches :: "array2 \<Rightarrow> nat" where
  "matches a = length (filter (\<lambda>i. first_max (rows a ! i) i) [0..<length (rows a)])"


text \<open>
  The ranking of the specification: by descending score, the lower index first among
  equal scores. \<open>ranking row r\<close> says that \<open>r\<close> lists the pairs of an index of \<open>row\<close> and
  its score in that order.
\<close>

definition ranked_before :: "nat \<times> real \<Rightarrow> nat \<times> real \<Rightarrow> bool" where
  "ranked_before p q = (snd q < snd p \<or> (snd p = snd q \<and> fst p < fst q))"

definition ranking :: "real list \<Rightarrow> (nat \<times> real) list \<Rightarrow> bool" where
  "ranking row r = (mset r = mset (zip [0..<length row] row) \<and> sorted_wrt ranked_before r)"

text \<open>
  What the specification has printed for a row \<open>i\<close> whose first maximum is at
  \<open>k \<noteq> i\<close>, given the ranking \<open>r\<close> of the row.
\<close>

definition candidate_line :: "evaluator \<Rightarrow> nat \<times> real \<Rightarrow> line" where
  "candidate_line ev c =
     [Str [CHR 0x09], Dec (int (fst c)), Cat (Str ''(Score: '') (Cat (Fmt 4 (snd c)) (Str '')'')),
      Str (target_sentences ev ! fst c)]"

definition mismatch_report :: "evaluator \<Rightarrow> real list \<Rightarrow> nat \<Rightarrow> nat \<Rightarrow> (nat \<times> real) list \<Rightarrow> line list" where
  "mismatch_report ev row i k r =
     [[Str ''i:'', Dec (int i), Str ''j:'', Dec (int k), Str ''INCORRECT''],
      [Str ''Src:'', Str (source_sentences ev ! i)],
      [Str ''Trg:'', Str (target_sentences ev ! k)],
      [Str ''Argmax score:'', Num (row ! k), Str ''vs. correct score:'', Num (row ! i)]]
     @ map (candidate_line ev) (take 5 r)"

text \<open>
  The contract of the encoder, on the sentences of an evaluator: it returns \<open>e1\<close> for the
  source sentences and \<open>e2\<close> for the target sentences, one embedding for each sentence,
  all of the same dimension \<open>D > 0\<close>.
\<close>

definition encodes :: "encoder \<Rightarrow> evaluator \<Rightarrow> nat \<Rightarrow> vec list \<Rightarrow> vec list \<Rightarrow> bool" where
  "encodes model ev D e1 e2 =
     (model (source_sentences ev) (show_progress_bar ev) (batch_size ev) = Inr e1 \<and>
      model (target_sentences ev) (show_progress_bar ev) (batch_size ev) = Inr e2 \<and>
      length e1 = length (source_sentences ev) \<and>
      length e2 = length (target_sentences ev) \<and>
      list_all (\<lambda>v. length v = D) (e1 @ e2) \<and> 0 < D)"

text \<open>The same contract, for an encoder whose embeddings are not named.\<close>

definition encoder_ok :: "encoder \<Rightarrow> evaluator \<Rightarrow> bool" where
  "encoder_ok model ev =
     (case model (source_sentences ev) (show_progress_bar ev) (batch_size ev) of
        Inl e \<Rightarrow> False
      | Inr e1 \<Rightarrow>
          (case model (target_sentences ev) (show_progress_bar ev) (batch_size ev) of
             Inl e \<Rightarrow> False
           | Inr e2 \<Rightarrow>
               (case e1 of
                  [] \<Rightarrow> False
                | v # vs \<Rightarrow> encodes model ev (length v) e1 e2)))"

text \<open>
  The CSV file can be written: no output path, or no writing, or the file exists, or it
  can be created in its directory.
\<close>

definition csv_ready :: "evaluator \<Rightarrow> string option \<Rightarrow> world \<Rightarrow> bool" where
  "csv_ready ev output_path w =
     (case output_path of
        None \<Rightarrow> True
      | Some dir \<Rightarrow>
          if write_csv ev then
            (case fs w (os_path_join dir (csv_file ev)) of
               Some (File content) \<Rightarrow> True
             | Some Dir \<Rightarrow> False
             | None \<Rightarrow> is_dir w (os_path_dirname (os_path_join dir (csv_file ev))))
          else True)"

text \<open>
  What the specification asks of a call on no sentences: an accuracy of 0 in both
  directions, or an error that the evaluator raises itself. The only statement of the
  evaluator that raises is the assertion of the constructor.
\<close>

definition raised_by_evaluator :: "error \<Rightarrow> bool" where
  "raised_by_evaluator e = (e = AssertionError)"

definition empty_input_handled :: "error + outcome \<Rightarrow> bool" where
  "empty_input_handled r =
     (case r of
        Inr out \<Rightarrow> acc_src2trg out = 0 \<and> acc_trg2src out = 0
      | Inl e \<Rightarrow> raised_by_evaluator e)"

subsection \<open>A small example\<close>

text \<open>
  Two sentence pairs and a model that embeds \<open>hello\<close> as \<open>(3, 4)\<close>, \<open>bonjour\<close> as
  \<open>(1, 0)\<close> and every other sentence as \<open>(0, 1)\<close>; a second model that doubles every
  embedding; a world with an empty directory \<open>out\<close>.
\<close>

definition demo_model :: encoder where
  "demo_model ss spb bs =
     Inr (map (\<lambda>s. if s = ''hello'' then [3, 4] else if s = ''bonjour'' then [1, 0] else [0, 1]) ss)"

definition doubled_model :: encoder where
  "doubled_model ss spb bs =
     Inr (map (\<lambda>s. if s = ''hello'' then [6, 8] else if s = ''bonjour'' then [2, 0] else [0, 2]) ss)"

definition demo_evaluator :: evaluator where
  "demo_evaluator =
     \<lparr>source_sentences = [''hello'', ''world''],
      target_sentences = [''bonjour'', ''monde''],
      name = [],
      batch_size = 16,
      show_progress_bar = False,
      print_wrong_matches = True,
      csv_file = ''translation_evaluation_results.csv'',
      csv_headers = [''epoch'', ''steps'', ''src2trg'', ''trg2src''],
      write_csv = True\<rparr>"

definition demo_world :: world where
  "demo_world = \<lparr>console = [], log_lines = [], encode_calls = [], fs = [''out'' \<mapsto> Dir]\<rparr>"




section \<open>Properties of the parts\<close>

subsection \<open>The argmax\<close>

lemma first_max_unique: "first_max xs k \<Longrightarrow> first_max xs k' \<Longrightarrow> k = k'"
  unfolding first_max_def by (metis linorder_neqE_nat not_less)

lemma argmax_from_first_max:
  "length pre = i \<Longrightarrow> bi < i \<Longrightarrow> pre ! bi = best \<Longrightarrow> first_max pre bi
     \<Longrightarrow> first_max (pre @ xs) (argmax_from best bi i xs)"
proof (induction xs arbitrary: pre i bi best)
  case Nil
  then show ?case by simp
next
  case (Cons x xs)
  show ?case
  proof (cases "best < x")
    case True
    have le: "\<And>j. j < i \<Longrightarrow> pre ! j < x"
    proof -
      fix j assume "j < i"
      then have "pre ! j \<le> pre ! bi" using Cons.prems by (simp add: first_max_def)
      then show "pre ! j < x" using True Cons.prems by simp
    qed
    have fm: "first_max (pre @ [x]) i"
      using Cons.prems le unfolding first_max_def
      by (auto simp: nth_append less_Suc_eq intro: less_imp_le)
    have "first_max ((pre @ [x]) @ xs) (argmax_from x i (Suc i) xs)"
      by (rule Cons.IH) (use Cons.prems fm in \<open>simp_all add: nth_append\<close>)
    with True show ?thesis by simp
  next
    case False
    have fm: "first_max (pre @ [x]) bi"
      using Cons.prems False unfolding first_max_def
      by (auto simp: nth_append less_Suc_eq)
    have "first_max ((pre @ [x]) @ xs) (argmax_from best bi (Suc i) xs)"
      by (rule Cons.IH) (use Cons.prems fm in \<open>simp_all add: nth_append\<close>)
    with False show ?thesis by simp
  qed
qed

lemma np_argmax_first_max:
  assumes "xs \<noteq> []"
  shows "\<exists>k. np_argmax xs = Inr k \<and> first_max xs k"
proof -
  obtain x ys where xs: "xs = x # ys" using assms by (cases xs) auto
  have "first_max ([x] @ ys) (argmax_from x 0 1 ys)"
    by (rule argmax_from_first_max) (simp_all add: first_max_def)
  then show ?thesis by (simp add: xs np_argmax_def)
qed

lemma np_argmax_iff:
  assumes "xs \<noteq> []"
  shows "np_argmax xs = Inr k \<longleftrightarrow> first_max xs k"
  using np_argmax_first_max[OF assms] first_max_unique by auto

lemma np_argmax_less:
  assumes "np_argmax xs = Inr k" shows "k < length xs"
proof -
  have ne: "xs \<noteq> []" using assms by (auto simp: np_argmax_def)
  have "first_max xs k" using np_argmax_iff[OF ne] assms by blast
  then show ?thesis by (simp add: first_max_def)
qed

lemma argmax_hit:
  assumes "xs \<noteq> []" and "np_argmax xs = Inr k"
  shows "(i = k) = first_max xs i"
proof -
  have k: "first_max xs k" using np_argmax_iff[OF assms(1)] assms(2) by blast
  show ?thesis using k first_max_unique by blast
qed

lemma trg2src_loop_count:
  assumes "\<forall>i\<in>set is. rows a ! i \<noteq> []"
  shows "trg2src_loop a is c = Inr (c + length (filter (\<lambda>i. first_max (rows a ! i) i) is))"
  using assms
proof (induction "is" arbitrary: c)
  case Nil
  then show ?case by simp
next
  case (Cons i "is")
  then have ne: "rows a ! i \<noteq> []" by simp
  then obtain k where k: "np_argmax (rows a ! i) = Inr k" using np_argmax_first_max by blast
  have hit: "(i = k) = first_max (rows a ! i) i" by (rule argmax_hit[OF ne k])
  have IH: "\<And>c. trg2src_loop a is c = Inr (c + length (filter (\<lambda>i. first_max (rows a ! i) i) is))"
    using Cons by simp
  show ?case using hit by (simp add: k IH)
qed

subsection \<open>The ranking of the candidates\<close>

lemma ranked_before_asym: "ranked_before p q \<Longrightarrow> \<not> ranked_before q p"
  by (auto simp: ranked_before_def)

lemma ranked_before_trans: "ranked_before p q \<Longrightarrow> ranked_before q r \<Longrightarrow> ranked_before p r"
  by (auto simp: ranked_before_def)

lemma sorted_wrt_ranked_unique:
  "sorted_wrt ranked_before xs \<Longrightarrow> sorted_wrt ranked_before ys \<Longrightarrow> mset xs = mset ys \<Longrightarrow> xs = ys"
proof (induction xs arbitrary: ys)
  case Nil
  then show ?case by simp
next
  case (Cons x xs)
  then obtain y ys' where ys: "ys = y # ys'" by (cases ys) auto
  have xy: "x = y"
  proof (rule ccontr)
    assume neq: "x \<noteq> y"
    have "x \<in># mset (y # ys')" using Cons.prems(3) ys by (metis list.set_intros(1) set_mset_mset)
    with neq have "x \<in> set ys'" by simp
    then have 1: "ranked_before y x" using Cons.prems(2) ys by simp
    have "y \<in># mset (x # xs)" using Cons.prems(3) ys by (metis list.set_intros(1) set_mset_mset)
    with neq have "y \<in> set xs" by auto
    then have "ranked_before x y" using Cons.prems(1) by simp
    with 1 show False using ranked_before_asym by blast
  qed
  have "xs = ys'"
    by (rule Cons.IH) (use Cons.prems ys xy in simp_all)
  with xy ys show ?case by simp
qed

lemma ranking_unique: "ranking row r \<Longrightarrow> ranking row r' \<Longrightarrow> r = r'"
  unfolding ranking_def by (auto intro: sorted_wrt_ranked_unique)

lemma insort_ranked:
  assumes "sorted_wrt ranked_before ys" and "\<forall>y\<in>set ys. fst x < fst y"
  shows "sorted_wrt ranked_before (insort_key (\<lambda>p. - snd p) x ys)"
  using assms
proof (induction ys)
  case Nil
  then show ?case by simp
next
  case (Cons y ys)
  show ?case
  proof (cases "snd y \<le> snd x")
    case True
    have xy: "ranked_before x y" using True Cons.prems(2) by (auto simp: ranked_before_def)
    have "\<forall>z\<in>set ys. ranked_before x z"
      using Cons.prems(1) xy ranked_before_trans by auto
    with xy True Cons.prems(1) show ?thesis by simp
  next
    case False
    have yx: "ranked_before y x" using False by (auto simp: ranked_before_def)
    have "sorted_wrt ranked_before (insort_key (\<lambda>p. - snd p) x ys)"
      using Cons by simp
    with yx False Cons.prems(1) show ?thesis by (auto simp: set_insort_key)
  qed
qed

lemma sort_key_ranked:
  assumes "sorted_wrt (<) (map fst xs)"
  shows "sorted_wrt ranked_before (sort_key (\<lambda>p. - snd p) xs)"
  using assms
proof (induction xs)
  case Nil
  then show ?case by simp
next
  case (Cons x xs)
  have "sorted_wrt ranked_before (insort_key (\<lambda>p. - snd p) x (sort_key (\<lambda>p. - snd p) xs))"
    by (rule insort_ranked) (use Cons in auto)
  then show ?case by simp
qed

lemma py_sorted_desc_ranking: "ranking row (py_sorted_desc (zip [0..<length row] row))"
proof -
  have "map fst (zip [0..<length row] row) = [0..<length row]" by simp
  then have "sorted_wrt (<) (map fst (zip [0..<length row] row))"
    by (metis sorted_wrt_upt)
  then show ?thesis
    unfolding ranking_def py_sorted_desc_def using sort_key_ranked by simp
qed

subsection \<open>The printed mismatches and the first loop\<close>

lemma candidate_lines_ok:
  assumes "\<forall>c\<in>set cs. fst c < length (target_sentences ev)"
  shows "candidate_lines ev cs out = (Inr (), out @ map (candidate_line ev) cs)"
  using assms
proof (induction cs arbitrary: out)
  case Nil
  then show ?case by simp
next
  case (Cons c cs)
  obtain idx s where c: "c = (idx, s)" by (cases c)
  have "idx < length (target_sentences ev)" using Cons.prems c by simp
  moreover have "\<And>out. candidate_lines ev cs out = (Inr (), out @ map (candidate_line ev) cs)"
    using Cons by simp
  ultimately show ?case by (simp add: c py_index_def candidate_line_def)
qed

lemma wrong_match_lines_ok:
  assumes src: "i < length (source_sentences ev)"
    and trg: "length (rows a ! i) \<le> length (target_sentences ev)"
    and i: "i < length (rows a ! i)"
    and k: "first_max (rows a ! i) k"
    and ik: "i \<noteq> k"
    and r: "ranking (rows a ! i) r"
  shows "wrong_match_lines ev a i k = (Inr (), mismatch_report ev (rows a ! i) i k r)"
proof -
  let ?row = "rows a ! i"
  let ?r = "py_sorted_desc (zip [0..<length ?row] ?row)"
  have rr: "?r = r" using py_sorted_desc_ranking r by (rule ranking_unique)
  have kl: "k < length ?row" using k by (simp add: first_max_def)
  have "set (take 5 r) \<subseteq> set r" by (rule set_take_subset)
  also have "set r = set (zip [0..<length ?row] ?row)"
    using r unfolding ranking_def by (metis set_mset_mset)
  finally have "\<forall>c\<in>set (take 5 r). fst c < length (target_sentences ev)"
    using trg by (auto dest!: set_zip_leftD)
  then have cl: "\<And>out. candidate_lines ev (take 5 r) out = (Inr (), out @ map (candidate_line ev) (take 5 r))"
    by (rule candidate_lines_ok)
  have kt: "k < length (target_sentences ev)" using kl trg by simp
  show ?thesis
    unfolding wrong_match_lines_def Let_def rr
    using src kt kl i ik by (simp add: py_index_def cl mismatch_report_def)
qed

lemma src2trg_loop_ok:
  assumes rows: "\<forall>i\<in>set is. rows a ! i \<noteq> []"
    and pr: "print_wrong_matches ev \<Longrightarrow>
         \<forall>i\<in>set is. i < length (source_sentences ev) \<and> i < length (rows a ! i) \<and>
                      length (rows a ! i) \<le> length (target_sentences ev)"
    and km: "\<forall>i\<in>set is. first_max (rows a ! i) (km i)"
    and rk: "\<forall>i\<in>set is. ranking (rows a ! i) (rk i)"
  shows "src2trg_loop ev a is c out =
           (Inr (c + length (filter (\<lambda>i. first_max (rows a ! i) i) is)),
            out @ concat (map (\<lambda>i. if first_max (rows a ! i) i \<or> \<not> print_wrong_matches ev then []
                                    else mismatch_report ev (rows a ! i) i (km i) (rk i)) is))"
  using assms
proof (induction "is" arbitrary: c out)
  case Nil
  then show ?case by simp
next
  case (Cons i "is")
  let ?row = "rows a ! i"
  have ne: "?row \<noteq> []" using Cons.prems(1) by simp
  have k: "np_argmax ?row = Inr (km i)"
    using np_argmax_iff[OF ne] Cons.prems(3) by simp
  have hit: "(i = km i) = first_max ?row i" by (rule argmax_hit[OF ne k])
  have IH: "\<And>c out. src2trg_loop ev a is c out =
           (Inr (c + length (filter (\<lambda>i. first_max (rows a ! i) i) is)),
            out @ concat (map (\<lambda>i. if first_max (rows a ! i) i \<or> \<not> print_wrong_matches ev then []
                                    else mismatch_report ev (rows a ! i) i (km i) (rk i)) is))"
    using Cons by simp
  show ?case
  proof (cases "first_max ?row i")
    case True
    then show ?thesis using hit by (simp add: k IH)
  next
    case miss: False
    show ?thesis
    proof (cases "print_wrong_matches ev")
      case True
      have "wrong_match_lines ev a i (km i) = (Inr (), mismatch_report ev ?row i (km i) (rk i))"
        by (rule wrong_match_lines_ok) (use Cons.prems True miss hit in auto)
      then show ?thesis using miss hit True by (simp add: k IH)
    next
      case False
      then show ?thesis using miss hit by (simp add: k IH)
    qed
  qed
qed

subsection \<open>Stacking, statistics and the CSV file\<close>

lemma torch_stack_ok:
  assumes "es \<noteq> []" and "list_all (\<lambda>v. length v = D) es"
  shows "torch_stack es = Inr \<lparr>ncols = D, rows = es\<rparr>"
proof -
  obtain e rest where es: "es = e # rest" using assms(1) by (cases es) auto
  have D: "length e = D" using assms(2) es by simp
  show ?thesis using assms(2) by (simp add: torch_stack_def es D)
qed

lemma similarity_matrix_ok:
  assumes "e1 \<noteq> []" and "e2 \<noteq> []" and "list_all (\<lambda>v. length v = D) (e1 @ e2)"
  shows "similarity_matrix e1 e2 =
           Inr \<lparr>ncols = length e2, rows = map (\<lambda>u. map (\<lambda>v. cosine u v) e2) e1\<rparr>"
proof -
  have "torch_stack e1 = Inr \<lparr>ncols = D, rows = e1\<rparr>"
    by (rule torch_stack_ok) (use assms in simp_all)
  moreover have "torch_stack e2 = Inr \<lparr>ncols = D, rows = e2\<rparr>"
    by (rule torch_stack_ok) (use assms in simp_all)
  ultimately show ?thesis by (simp add: similarity_matrix_def pytorch_cos_sim_def)
qed

lemma diagnostics_ok:
  assumes "e1 \<noteq> []" and "length e1 = length e2" and "list_all (\<lambda>v. length v = D) (e1 @ e2)"
    and "0 < D"
  shows "diagnostics e1 e2 =
           Inr \<lparr>cosine_scores = [1 - paired_cosine_distances (flatten e1) (flatten e2)],
                manhattan_distances = [- paired_manhattan_distances (flatten e1) (flatten e2)],
                euclidean_distances = [- paired_euclidean_distances (flatten e1) (flatten e2)],
                dot_products = [dot (flatten e1) (flatten e2)]\<rparr>"
proof -
  have len: "list_all (\<lambda>v. length v = D) es \<Longrightarrow> length (concat es) = length es * D"
    for es :: "vec list"
    by (induction es) simp_all
  have l1: "length (flatten e1) = length e1 * D" using assms(3) by (simp add: flatten_def len)
  have l2: "length (flatten e2) = length e1 * D" using assms(2,3) by (simp add: flatten_def len)
  have "0 < length e1 * D" using assms(1,4) by simp
  then have "check_paired_arrays (flatten e1) (flatten e2) = Inr ()"
    by (simp add: check_paired_arrays_def l1 l2)
  then show ?thesis by (simp add: diagnostics_def Let_def)
qed

lemma csv_ready_fs: "fs w' = fs w \<Longrightarrow> csv_ready ev output_path w' = csv_ready ev output_path w"
  by (auto simp: csv_ready_def is_dir_def split: option.splits node.splits)

lemma write_results_ok:
  assumes "csv_ready ev output_path w"
  shows "\<exists>w'. write_results ev output_path epoch steps a b w = Inr w' \<and>
           console w' = console w \<and> log_lines w' = log_lines w \<and>
           encode_calls w' = encode_calls w \<and>
           fs w' =
             (case output_path of
                None \<Rightarrow> fs w
              | Some dir \<Rightarrow>
                  if write_csv ev
                  then (fs w)(os_path_join dir (csv_file ev) \<mapsto>
                         File ((case fs w (os_path_join dir (csv_file ev)) of
                                  Some (File content) \<Rightarrow> content
                                | _ \<Rightarrow> [map Str (csv_headers ev)])
                               @ [[Dec epoch, Dec steps, Num a, Num b]]))
                  else fs w)"
  using assms
  by (auto simp: write_results_def csv_ready_def py_open_def os_path_isfile_def Let_def
      split: option.splits node.splits if_splits)

subsection \<open>A call that returns\<close>

lemma init_Inr:
  assumes "init src trg spb bs nm pwm wcsv = Inr ev"
  shows "length src = length trg"
    and "ev = \<lparr>source_sentences = src, target_sentences = trg, name = nm, batch_size = bs,
               show_progress_bar = spb, print_wrong_matches = pwm,
               csv_file = ''translation_evaluation'' @ (if nm \<noteq> [] then ''_'' @ nm else nm)
                          @ ''_results.csv'',
               csv_headers = [''epoch'', ''steps'', ''src2trg'', ''trg2src''],
               write_csv = wcsv\<rparr>"
  using assms by (auto simp: init_def split: if_splits)

lemma np_T_rows:
  "length (rows (np_T a)) = ncols a"
  "j < ncols a \<Longrightarrow> rows (np_T a) ! j = map (\<lambda>r. r ! j) (rows a)"
  by (simp_all add: np_T_def)

lemma call_returns:
  assumes init: "init src trg spb bs nm pwm wcsv = Inr ev"
    and ne: "src \<noteq> []"
    and enc: "encodes model ev D e1 e2"
    and csv: "csv_ready ev output_path w"
    and cs: "cs = \<lparr>ncols = length e2, rows = map (\<lambda>u. map (\<lambda>v. cosine u v) e2) e1\<rparr>"
    and km: "\<forall>i<length src. first_max (rows cs ! i) (km i)"
    and rk: "\<forall>i<length src. ranking (rows cs ! i) (rk i)"
    and a1: "a1 = real (matches cs) / real (length src)"
    and a2: "a2 = real (matches (np_T cs)) / real (length src)"
  shows "\<exists>w'. call ev model output_path epoch steps w =
                 (Inr \<lparr>acc_src2trg = a1, acc_trg2src = a2, score = (a1 + a2) / 2\<rparr>, w') \<and>
              console w' = console w
                 @ concat (map (\<lambda>i. if first_max (rows cs ! i) i \<or> \<not> pwm then []
                                      else mismatch_report ev (rows cs ! i) i (km i) (rk i))
                             [0..<length src])
                 @ diagnostic_lines
                     \<lparr>cosine_scores = [1 - paired_cosine_distances (flatten e1) (flatten e2)],
                      manhattan_distances = [- paired_manhattan_distances (flatten e1) (flatten e2)],
                      euclidean_distances = [- paired_euclidean_distances (flatten e1) (flatten e2)],
                      dot_products = [dot (flatten e1) (flatten e2)]\<rparr> \<and>
              encode_calls w' = encode_calls w @ [(src, spb, bs), (trg, spb, bs)] \<and>
              log_lines w' = log_lines w
                 @ [[Str ''Evaluating translation matching Accuracy on '', Str nm, Str '' dataset'']
                      @ out_txt epoch steps,
                    [Str ''Accuracy src2trg: '', Fmt 2 (a1 * 100)],
                    [Str ''Accuracy trg2src: '', Fmt 2 (a2 * 100)],
                    [Str ''Evaluating translation similarity'']] \<and>
              fs w' =
                (case output_path of
                   None \<Rightarrow> fs w
                 | Some dir \<Rightarrow>
                     if wcsv
                     then (fs w)(os_path_join dir (csv_file ev) \<mapsto>
                            File ((case fs w (os_path_join dir (csv_file ev)) of
                                     Some (File content) \<Rightarrow> content
                                   | _ \<Rightarrow> [[Str ''epoch'', Str ''steps'', Str ''src2trg'', Str ''trg2src'']])
                                  @ [[Dec epoch, Dec steps, Num a1, Num a2]]))
                     else fs w)"
proof -
  let ?N = "length src"
  note ev = init_Inr[OF init]
  have f: "source_sentences ev = src" "target_sentences ev = trg" "name ev = nm"
    "batch_size ev = bs" "show_progress_bar ev = spb" "print_wrong_matches ev = pwm"
    "write_csv ev = wcsv" "csv_headers ev = [''epoch'', ''steps'', ''src2trg'', ''trg2src'']"
    by (simp_all add: ev(2))
  have m1: "model src spb bs = Inr e1" and m2: "model trg spb bs = Inr e2"
    and l1: "length e1 = ?N" and l2: "length e2 = ?N"
    and dims: "list_all (\<lambda>v. length v = D) (e1 @ e2)" and D: "0 < D"
    using enc ev(1) by (simp_all add: encodes_def f)
  have N: "0 < ?N" using ne by simp
  have e1: "e1 \<noteq> []" and e2: "e2 \<noteq> []" using l1 l2 N by auto
  have sim: "similarity_matrix e1 e2 = Inr cs"
    unfolding cs by (rule similarity_matrix_ok[OF e1 e2 dims])
  have rl: "length (rows cs) = ?N" by (simp add: cs l1)
  have nc: "ncols cs = ?N" by (simp add: cs l2)
  have row: "\<And>i. i < ?N \<Longrightarrow> length (rows cs ! i) = ?N"
    by (simp add: cs l1 l2)
  have loop1: "src2trg_loop ev cs [0..<?N] 0 [] =
       (Inr (0 + length (filter (\<lambda>i. first_max (rows cs ! i) i) [0..<?N])),
        [] @ concat (map (\<lambda>i. if first_max (rows cs ! i) i \<or> \<not> print_wrong_matches ev then []
                                    else mismatch_report ev (rows cs ! i) i (km i) (rk i)) [0..<?N]))"
  proof (rule src2trg_loop_ok)
    show "\<forall>i\<in>set [0..<?N]. rows cs ! i \<noteq> []" using row N
      by (metis atLeastLessThan_iff length_greater_0_conv set_upt)
    show "\<forall>i\<in>set [0..<?N]. i < length (source_sentences ev) \<and> i < length (rows cs ! i) \<and>
                      length (rows cs ! i) \<le> length (target_sentences ev)"
      using row ev(1) by (simp add: f)
    show "\<forall>i\<in>set [0..<?N]. first_max (rows cs ! i) (km i)" using km by simp
    show "\<forall>i\<in>set [0..<?N]. ranking (rows cs ! i) (rk i)" using rk by simp
  qed
  have tl: "length (rows (np_T cs)) = ?N" by (simp add: np_T_rows nc)
  have loop2: "trg2src_loop (np_T cs) [0..<?N] 0 =
       Inr (0 + length (filter (\<lambda>i. first_max (rows (np_T cs) ! i) i) [0..<?N]))"
  proof (rule trg2src_loop_count)
    show "\<forall>i\<in>set [0..<?N]. rows (np_T cs) ! i \<noteq> []"
      using N rl by (auto simp: np_T_rows nc)
  qed
  have d1: "py_div (matches cs) ?N = Inr a1" using N by (simp add: py_div_def a1)
  have d2: "py_div (matches (np_T cs)) ?N = Inr a2" using N by (simp add: py_div_def a2)
  have diag: "diagnostics e1 e2 =
           Inr \<lparr>cosine_scores = [1 - paired_cosine_distances (flatten e1) (flatten e2)],
                manhattan_distances = [- paired_manhattan_distances (flatten e1) (flatten e2)],
                euclidean_distances = [- paired_euclidean_distances (flatten e1) (flatten e2)],
                dot_products = [dot (flatten e1) (flatten e2)]\<rparr>"
    by (rule diagnostics_ok[OF e1 _ dims D]) (simp add: l1 l2)
  let ?st = "\<lparr>cosine_scores = [1 - paired_cosine_distances (flatten e1) (flatten e2)],
                manhattan_distances = [- paired_manhattan_distances (flatten e1) (flatten e2)],
                euclidean_distances = [- paired_euclidean_distances (flatten e1) (flatten e2)],
                dot_products = [dot (flatten e1) (flatten e2)]\<rparr>"
  let ?w1 = "note_encode trg spb bs (note_encode src spb bs
       (logger_info ([Str ''Evaluating translation matching Accuracy on '', Str nm,
                   Str '' dataset''] @ out_txt epoch steps) w))"
  let ?out = "concat (map (\<lambda>i. if first_max (rows cs ! i) i \<or> \<not> pwm then []
                                    else mismatch_report ev (rows cs ! i) i (km i) (rk i)) [0..<?N])"
  let ?w6 = "prints (diagnostic_lines ?st)
       (logger_info [Str ''Evaluating translation similarity'']
         (logger_info [Str ''Accuracy trg2src: '', Fmt 2 (a2 * 100)]
           (logger_info [Str ''Accuracy src2trg: '', Fmt 2 (a1 * 100)] (prints ?out ?w1))))"
  have "fs ?w6 = fs w" by (simp add: prints_def logger_info_def note_encode_def)
  then have "csv_ready ev output_path ?w6" using csv by (simp only: csv_ready_fs[of ?w6 w])
  from write_results_ok[OF this, of epoch steps a1 a2]
  obtain w' where wr: "write_results ev output_path epoch steps a1 a2 ?w6 = Inr w'"
    and c: "console w' = console ?w6" and l: "log_lines w' = log_lines ?w6"
    and en: "encode_calls w' = encode_calls ?w6"
    and fsw: "fs w' = (case output_path of
                None \<Rightarrow> fs ?w6
              | Some dir \<Rightarrow>
                  if write_csv ev
                  then (fs ?w6)(os_path_join dir (csv_file ev) \<mapsto>
                         File ((case fs ?w6 (os_path_join dir (csv_file ev)) of
                                  Some (File content) \<Rightarrow> content
                                | _ \<Rightarrow> [map Str (csv_headers ev)])
                               @ [[Dec epoch, Dec steps, Num a1, Num a2]]))
                  else fs ?w6)"
    by blast
  have loop1': "src2trg_loop ev cs [0..<?N] 0 [] = (Inr (matches cs), ?out)"
    using loop1 by (simp add: matches_def rl f)
  have loop2': "trg2src_loop (np_T cs) [0..<?N] 0 = Inr (matches (np_T cs))"
    using loop2 by (simp add: matches_def tl)
  have call: "call ev model output_path epoch steps w =
      (Inr \<lparr>acc_src2trg = a1, acc_trg2src = a2, score = (a1 + a2) / 2\<rparr>, w')"
    unfolding call_def Let_def
    by (simp only: f m1 m2 sim rl tl loop1' loop2' d1 d2 diag wr sum.case prod.case)
  have c': "console w' = console w @ ?out @ diagnostic_lines ?st"
    by (simp add: c prints_def logger_info_def note_encode_def)
  have en': "encode_calls w' = encode_calls w @ [(src, spb, bs), (trg, spb, bs)]"
    by (simp add: en prints_def logger_info_def note_encode_def)
  have l': "log_lines w' = log_lines w
                 @ [[Str ''Evaluating translation matching Accuracy on '', Str nm, Str '' dataset'']
                      @ out_txt epoch steps,
                    [Str ''Accuracy src2trg: '', Fmt 2 (a1 * 100)],
                    [Str ''Accuracy trg2src: '', Fmt 2 (a2 * 100)],
                    [Str ''Evaluating translation similarity'']]"
    by (simp add: l prints_def logger_info_def note_encode_def)
  have fs': "fs w' =
                (case output_path of
                   None \<Rightarrow> fs w
                 | Some dir \<Rightarrow>
                     if wcsv
                     then (fs w)(os_path_join dir (csv_file ev) \<mapsto>
                            File ((case fs w (os_path_join dir (csv_file ev)) of
                                     Some (File content) \<Rightarrow> content
                                   | _ \<Rightarrow> [[Str ''epoch'', Str ''steps'', Str ''src2trg'', Str ''trg2src'']])
                                  @ [[Dec epoch, Dec steps, Num a1, Num a2]]))
                     else fs w)"
    unfolding fsw
    by (simp add: f prints_def logger_info_def note_encode_def split: option.splits node.splits)
  show ?thesis
    by (rule exI[of _ w']) (simp only: call c' l' en' fs' simp_thms)
qed

lemma first_max_exists:
  assumes "xs \<noteq> []" shows "\<exists>k. first_max xs k"
  using np_argmax_first_max[OF assms] by blast

lemma call_outcome:
  assumes init: "init src trg spb bs nm pwm wcsv = Inr ev"
    and ne: "src \<noteq> []"
    and enc: "encodes model ev D e1 e2"
    and csv: "csv_ready ev output_path w"
    and cs: "cs = \<lparr>ncols = length e2, rows = map (\<lambda>u. map (\<lambda>v. cosine u v) e2) e1\<rparr>"
    and a1: "a1 = real (matches cs) / real (length src)"
    and a2: "a2 = real (matches (np_T cs)) / real (length src)"
  shows "\<exists>w'. call ev model output_path epoch steps w =
                 (Inr \<lparr>acc_src2trg = a1, acc_trg2src = a2, score = (a1 + a2) / 2\<rparr>, w') \<and>
              encode_calls w' = encode_calls w @ [(src, spb, bs), (trg, spb, bs)] \<and>
              log_lines w' = log_lines w
                 @ [[Str ''Evaluating translation matching Accuracy on '', Str nm, Str '' dataset'']
                      @ out_txt epoch steps,
                    [Str ''Accuracy src2trg: '', Fmt 2 (a1 * 100)],
                    [Str ''Accuracy trg2src: '', Fmt 2 (a2 * 100)],
                    [Str ''Evaluating translation similarity'']] \<and>
              fs w' =
                (case output_path of
                   None \<Rightarrow> fs w
                 | Some dir \<Rightarrow>
                     if wcsv
                     then (fs w)(os_path_join dir (csv_file ev) \<mapsto>
                            File ((case fs w (os_path_join dir (csv_file ev)) of
                                     Some (File content) \<Rightarrow> content
                                   | _ \<Rightarrow> [[Str ''epoch'', Str ''steps'', Str ''src2trg'', Str ''trg2src'']])
                                  @ [[Dec epoch, Dec steps, Num a1, Num a2]]))
                     else fs w)"
proof -
  note ev = init_Inr[OF init]
  have l1: "length e1 = length src" and l2: "length e2 = length src"
    using enc ev by (simp_all add: encodes_def)
  have rows: "\<forall>i<length src. rows cs ! i \<noteq> []"
    using ne l2 by (auto simp: cs l1)
  define km where "km = (\<lambda>i. SOME k. first_max (rows cs ! i) k)"
  define rk where "rk = (\<lambda>i. py_sorted_desc (zip [0..<length (rows cs ! i)] (rows cs ! i)))"
  have km: "\<forall>i<length src. first_max (rows cs ! i) (km i)"
    unfolding km_def using rows first_max_exists by (metis (mono_tags, lifting) someI_ex)
  have rk: "\<forall>i<length src. ranking (rows cs ! i) (rk i)"
    unfolding rk_def by (simp add: py_sorted_desc_ranking)
  from call_returns[OF init ne enc csv cs km rk a1 a2, of epoch steps]
  show ?thesis by (elim exE conjE, intro exI conjI) assumption+
qed

subsection \<open>Symmetry of the cosine\<close>




subsection \<open>The example, evaluated\<close>

lemma sqrt_25: "sqrt 25 = 5"
  by (rule real_sqrt_unique) simp_all

lemma demo_init:
  "init [''hello'', ''world''] [''bonjour'', ''monde''] False 16 [] True True = Inr demo_evaluator"
  by (simp add: init_def demo_evaluator_def)

lemma demo_encodes: "encodes demo_model demo_evaluator 2 [[3, 4], [0, 1]] [[1, 0], [0, 1]]"
  by (simp add: encodes_def demo_model_def demo_evaluator_def)

lemma demo_csv_ready: "csv_ready demo_evaluator (Some ''out'') demo_world"
  by (simp add: csv_ready_def demo_evaluator_def demo_world_def os_path_join_def
      os_path_dirname_def is_dir_def)

lemma demo_cosines:
  "cosine [3, 4] [1, 0] = 3 / 5" "cosine [3, 4] [0, 1] = 4 / 5"
  "cosine [0, 1] [1, 0] = 0" "cosine [0, 1] [0, 1] = 1"
  by (simp_all add: cosine_def l2_norm_def dot_def sqrt_25)

lemma demo_similarity:
  "similarity_matrix [[3, 4], [0, 1]] [[1, 0], [0, 1]] = Inr \<lparr>ncols = 2, rows = [[3 / 5, 4 / 5], [0, 1]]\<rparr>"
  by (simp add: similarity_matrix_def torch_stack_def pytorch_cos_sim_def demo_cosines)

lemma first_max_pair:
  "first_max [a, b] 0 = (b \<le> a)" "first_max [a, b] (Suc 0) = (a < b)"
  by (auto simp: first_max_def less_Suc_eq)

lemma demo_matches:
  "matches \<lparr>ncols = 2, rows = [[3 / 5, 4 / 5], [0, 1]]\<rparr> = 1"
  "matches (np_T \<lparr>ncols = 2, rows = [[3 / 5, 4 / 5], [0, 1]]\<rparr>) = 2"
  by (simp_all add: matches_def np_T_def upt_rec first_max_pair)

subsection \<open>Bounds and congruences\<close>

lemma matches_le: "matches a \<le> length (rows a)"
  unfolding matches_def by (metis length_filter_le length_upt diff_zero)

lemma encodes_lengths:
  assumes "init src trg spb bs nm pwm wcsv = Inr ev" and "encodes model ev D e1 e2"
  shows "length e1 = length src" and "length e2 = length src"
  using assms init_Inr[OF assms(1)] by (simp_all add: encodes_def)

lemma csv_ready_cong:
  assumes "csv_file ev' = csv_file ev" and "write_csv ev' = write_csv ev"
  shows "csv_ready ev' output_path w = csv_ready ev output_path w"
  unfolding csv_ready_def assms by (rule refl)

lemma encoder_ok_encodes:
  assumes "encoder_ok model ev"
  shows "\<exists>D e1 e2. encodes model ev D e1 e2"
  using assms by (auto simp: encoder_ok_def split: sum.splits list.splits)

lemma flatten_lengths:
  assumes "list_all (\<lambda>v. length v = D) (e1 @ e2)" and "length e1 = length e2"
  shows "length (flatten e1) = length (flatten e2)"
proof -
  have len: "list_all (\<lambda>v. length v = D) es \<Longrightarrow> length (concat es) = length es * D"
    for es :: "vec list"
    by (induction es) simp_all
  show ?thesis using assms by (simp add: flatten_def len)
qed

subsection \<open>Several calls\<close>

lemma calls_csv:
  assumes init: "init src trg spb bs nm pwm True = Inr ev"
    and ne: "src \<noteq> []"
    and ok: "list_all (\<lambda>c. encoder_ok (fst c) ev) cl"
    and csv: "csv_ready ev (Some dir) w"
    and path: "path = os_path_join dir (csv_file ev)"
  shows "\<exists>outs w'.
           calls ev (Some dir) cl w = (Inr outs, w') \<and> length outs = length cl \<and>
           fs w' =
             (if cl = [] then fs w
              else (fs w)(path \<mapsto>
                     File ((case fs w path of
                              Some (File content) \<Rightarrow> content
                            | _ \<Rightarrow> [[Str ''epoch'', Str ''steps'', Str ''src2trg'', Str ''trg2src'']])
                           @ map csv_row (zip cl outs))))"
  using ok csv
proof (induction cl arbitrary: w)
  case Nil
  then show ?case by simp
next
  case (Cons c cl)
  obtain model epoch steps where c: "c = (model, epoch, steps)" by (cases c)
  have "encoder_ok model ev" using Cons.prems(1) c by simp
  then obtain D e1 e2 where enc: "encodes model ev D e1 e2"
    using encoder_ok_encodes by blast
  let ?cs = "\<lparr>ncols = length e2, rows = map (\<lambda>u. map (\<lambda>v. cosine u v) e2) e1\<rparr>"
  let ?old = "case fs w path of
                Some (File content) \<Rightarrow> content
              | _ \<Rightarrow> [[Str ''epoch'', Str ''steps'', Str ''src2trg'', Str ''trg2src'']]"
  define a1 where "a1 = real (matches ?cs) / real (length src)"
  define a2 where "a2 = real (matches (np_T ?cs)) / real (length src)"
  define out where "out = \<lparr>acc_src2trg = a1, acc_trg2src = a2, score = (a1 + a2) / 2\<rparr>"
  from call_outcome[OF init ne enc Cons.prems(2) refl a1_def a2_def, of epoch steps]
  obtain w1 where c1: "call ev model (Some dir) epoch steps w = (Inr out, w1)"
    and f1: "fs w1 = (fs w)(path \<mapsto> File (?old @ [[Dec epoch, Dec steps, Num a1, Num a2]]))"
    unfolding out_def path by auto
  have row: "[Dec epoch, Dec steps, Num a1, Num a2] = csv_row (c, out)"
    by (simp add: csv_row_def c out_def)
  have wr: "write_csv ev" using init_Inr(2)[OF init] by simp
  have ready: "csv_ready ev (Some dir) w1"
    by (simp add: csv_ready_def wr f1 path[symmetric])
  have "list_all (\<lambda>c. encoder_ok (fst c) ev) cl" using Cons.prems(1) by simp
  from Cons.IH[OF this ready]
  obtain outs w' where cs: "calls ev (Some dir) cl w1 = (Inr outs, w')"
    and len: "length outs = length cl"
    and f': "fs w' =
             (if cl = [] then fs w1
              else (fs w1)(path \<mapsto>
                     File ((case fs w1 path of
                              Some (File content) \<Rightarrow> content
                            | _ \<Rightarrow> [[Str ''epoch'', Str ''steps'', Str ''src2trg'', Str ''trg2src'']])
                           @ map csv_row (zip cl outs))))"
    by blast
  have run: "calls ev (Some dir) (c # cl) w = (Inr (out # outs), w')"
    by (simp add: c c1 cs)
  have fin: "fs w' = (fs w)(path \<mapsto> File (?old @ map csv_row (zip (c # cl) (out # outs))))"
  proof (cases "cl = []")
    case True
    then have "outs = []" using len by simp
    then show ?thesis using True f' f1 row by simp
  next
    case False
    then show ?thesis using f' f1 row by simp
  qed
  have len': "length (out # outs) = length (c # cl)" using len by simp
  have "c # cl \<noteq> []" by simp
  then show ?case
    by (intro exI[of _ "out # outs"] exI[of _ w'] conjI) (simp_all only: run len' fin if_False)
qed

subsection \<open>The cosine distance of scikit-learn\<close>

lemma dot_self_nonneg: "0 \<le> dot x x"
  unfolding dot_def by (induction x) simp_all

lemma l2_norm_square: "l2_norm x * l2_norm x = dot x x"
  unfolding l2_norm_def using dot_self_nonneg[of x] by simp

lemma zip_sum_left:
  "length x = length y \<Longrightarrow> (\<Sum>(a, b)\<leftarrow>zip x y. a * a) = dot x x"
  by (induction x y rule: list_induct2) (simp_all add: dot_def)

lemma zip_sum_right:
  "length x = length y \<Longrightarrow> (\<Sum>(a, b)\<leftarrow>zip x y. b * b) = dot y y"
  by (induction x y rule: list_induct2) (simp_all add: dot_def)

lemma sq_dist_scaled:
  assumes "length x = length y" and "n \<noteq> 0" and "m \<noteq> 0"
  shows "sq_dist (map (\<lambda>a. a / n) x) (map (\<lambda>b. b / m) y) =
           dot x x / (n * n) - 2 * (dot x y / (n * m)) + dot y y / (m * m)"
  using assms(1)
proof (induction x y rule: list_induct2)
  case Nil
  then show ?case by (simp add: sq_dist_def dot_def)
next
  case (Cons a x b y)
  have step: "(a / n - b / m) * (a / n - b / m) =
              a * a / (n * n) - 2 * (a * b / (n * m)) + b * b / (m * m)"
    using assms(2,3) by (simp add: field_simps)
  have "sq_dist (map (\<lambda>a. a / n) (a # x)) (map (\<lambda>b. b / m) (b # y)) =
        (a / n - b / m) * (a / n - b / m) + sq_dist (map (\<lambda>a. a / n) x) (map (\<lambda>b. b / m) y)"
    by (simp add: sq_dist_def)
  also have "\<dots> = (a * a / (n * n) - 2 * (a * b / (n * m)) + b * b / (m * m))
                  + (dot x x / (n * n) - 2 * (dot x y / (n * m)) + dot y y / (m * m))"
    by (simp only: step Cons.IH)
  also have "\<dots> = dot (a # x) (a # x) / (n * n) - 2 * (dot (a # x) (b # y) / (n * m))
                  + dot (b # y) (b # y) / (m * m)"
    by (simp add: dot_def add_divide_distrib algebra_simps)
  finally show ?case .
qed

lemma sk_cosine:
  assumes "length x = length y" and "l2_norm x \<noteq> 0" and "l2_norm y \<noteq> 0"
  shows "1 - paired_cosine_distances x y = cosine x y"
proof -
  let ?n = "l2_norm x" and ?m = "l2_norm y"
  have nx: "sk_normalize x = map (\<lambda>a. a / ?n) x" and ny: "sk_normalize y = map (\<lambda>b. b / ?m) y"
    using assms(2,3) by (simp_all add: sk_normalize_def Let_def)
  have 1: "dot x x / (?n * ?n) = 1" using assms(2) by (simp add: l2_norm_square[symmetric])
  have 2: "dot y y / (?m * ?m) = 1" using assms(3) by (simp add: l2_norm_square[symmetric])
  have "sq_dist (sk_normalize x) (sk_normalize y) = 2 - 2 * (dot x y / (?n * ?m))"
    unfolding nx ny sq_dist_scaled[OF assms] 1 2 by simp
  then have "1 - paired_cosine_distances x y = dot x y / (?n * ?m)"
    by (simp add: paired_cosine_distances_def diff_divide_distrib)
  then show ?thesis
    using assms(2,3) by (simp add: cosine_def)
qed

subsection \<open>More of the example\<close>

lemma sqrt_100: "sqrt 100 = 10"
  by (rule real_sqrt_unique) simp_all



lemma demo_init_flags:
  "init [''hello'', ''world''] [''bonjour'', ''monde''] True 16 [] False True =
     Inr (demo_evaluator\<lparr>show_progress_bar := True, print_wrong_matches := False\<rparr>)"
  by (simp add: init_def demo_evaluator_def)

lemma demo_encodes_flags:
  "encodes demo_model (demo_evaluator\<lparr>show_progress_bar := True, print_wrong_matches := False\<rparr>)
     2 [[3, 4], [0, 1]] [[1, 0], [0, 1]]"
  by (simp add: encodes_def demo_model_def demo_evaluator_def)

lemma empty_init:
  "init [] [] False 16 [] True True =
     Inr (demo_evaluator\<lparr>source_sentences := [], target_sentences := []\<rparr>)"
  by (simp add: init_def demo_evaluator_def)

lemma doubled_encodes: "encodes doubled_model demo_evaluator 2 [[6, 8], [0, 2]] [[2, 0], [0, 2]]"
  by (simp add: encodes_def doubled_model_def demo_evaluator_def)

lemma doubled_cosines:
  "cosine [6, 8] [2, 0] = 3 / 5" "cosine [6, 8] [0, 2] = 4 / 5"
  "cosine [0, 2] [2, 0] = 0" "cosine [0, 2] [0, 2] = 1"
  by (simp_all add: cosine_def l2_norm_def dot_def sqrt_100)

lemma doubled_similarity:
  "similarity_matrix [[6, 8], [0, 2]] [[2, 0], [0, 2]] =
     similarity_matrix [[3, 4], [0, 1]] [[1, 0], [0, 1]]"
  by (simp add: similarity_matrix_def torch_stack_def pytorch_cos_sim_def demo_cosines
      doubled_cosines)

lemma demo_call:
  assumes "csv_ready demo_evaluator (Some dir) w"
  shows "\<exists>w'. call demo_evaluator demo_model (Some dir) epoch steps w =
                (Inr \<lparr>acc_src2trg = 1 / 2, acc_trg2src = 1, score = 3 / 4\<rparr>, w') \<and>
              fs w' =
                (fs w)(os_path_join dir ''translation_evaluation_results.csv'' \<mapsto>
                  File ((case fs w (os_path_join dir ''translation_evaluation_results.csv'') of
                           Some (File content) \<Rightarrow> content
                         | _ \<Rightarrow> [[Str ''epoch'', Str ''steps'', Str ''src2trg'', Str ''trg2src'']])
                        @ [[Dec epoch, Dec steps, Num (1 / 2), Num 1]]))"
proof -
  have ne: "[''hello'', ''world''] \<noteq> []" by simp
  let ?cs = "\<lparr>ncols = length [[1, 0], [0, 1::real]],
             rows = map (\<lambda>u. map (\<lambda>v. cosine u v) [[1, 0], [0, 1]]) [[3, 4], [0, 1]]\<rparr>"
  have cs: "?cs = \<lparr>ncols = 2, rows = [[3 / 5, 4 / 5], [0, 1]]\<rparr>"
    by (simp add: demo_cosines)
  have a1: "1 / 2 = real (matches ?cs) / real (length [''hello'', ''world''])"
    unfolding cs by (simp add: demo_matches)
  have a2: "1 = real (matches (np_T ?cs)) / real (length [''hello'', ''world''])"
    unfolding cs by (simp add: demo_matches)
  have f: "csv_file demo_evaluator = ''translation_evaluation_results.csv''"
    by (simp add: demo_evaluator_def)
  from call_outcome[OF demo_init ne demo_encodes assms refl a1 a2, of epoch steps]
  show ?thesis unfolding f by auto
qed

lemma doubled_call:
  assumes "csv_ready demo_evaluator (Some dir) w"
  shows "\<exists>w'. call demo_evaluator doubled_model (Some dir) epoch steps w =
                (Inr \<lparr>acc_src2trg = 1 / 2, acc_trg2src = 1, score = 3 / 4\<rparr>, w') \<and>
              fs w' =
                (fs w)(os_path_join dir ''translation_evaluation_results.csv'' \<mapsto>
                  File ((case fs w (os_path_join dir ''translation_evaluation_results.csv'') of
                           Some (File content) \<Rightarrow> content
                         | _ \<Rightarrow> [[Str ''epoch'', Str ''steps'', Str ''src2trg'', Str ''trg2src'']])
                        @ [[Dec epoch, Dec steps, Num (1 / 2), Num 1]]))"
proof -
  have ne: "[''hello'', ''world''] \<noteq> []" by simp
  let ?cs = "\<lparr>ncols = length [[2, 0], [0, 2::real]],
             rows = map (\<lambda>u. map (\<lambda>v. cosine u v) [[2, 0], [0, 2]]) [[6, 8], [0, 2]]\<rparr>"
  have cs: "?cs = \<lparr>ncols = 2, rows = [[3 / 5, 4 / 5], [0, 1]]\<rparr>"
    by (simp add: doubled_cosines)
  have a1: "1 / 2 = real (matches ?cs) / real (length [''hello'', ''world''])"
    unfolding cs by (simp add: demo_matches)
  have a2: "1 = real (matches (np_T ?cs)) / real (length [''hello'', ''world''])"
    unfolding cs by (simp add: demo_matches)
  have f: "csv_file demo_evaluator = ''translation_evaluation_results.csv''"
    by (simp add: demo_evaluator_def)
  from call_outcome[OF demo_init ne doubled_encodes assms refl a1 a2, of epoch steps]
  show ?thesis unfolding f by auto
qed

lemma demo_encoders_ok:
  "list_all (\<lambda>c. encoder_ok (fst c) demo_evaluator)
     [(demo_model, 1 :: int, 100 :: int), (doubled_model, 2, 200)]"
  by (simp add: encoder_ok_def encodes_def demo_model_def doubled_model_def demo_evaluator_def)

lemma demo_first_maxima:
  "\<forall>i<length [''hello'', ''world''].
      first_max (rows \<lparr>ncols = 2, rows = [[3 / 5, 4 / 5], [0, 1]]\<rparr> ! i) ((\<lambda>i. 1) i)"
  by (simp add: less_Suc_eq first_max_pair)

lemma demo_rankings:
  "ranking [3 / 5, 4 / 5] [(1, 4 / 5), (0, 3 / 5)]" "ranking [0, 1] [(1, 1), (0, 0)]"
  by (simp_all add: ranking_def ranked_before_def upt_rec)

lemma demo_rankings_all:
  "\<forall>i<length [''hello'', ''world''].
      ranking (rows \<lparr>ncols = 2, rows = [[3 / 5, 4 / 5], [0, 1]]\<rparr> ! i)
        ((\<lambda>i. if i = 0 then [(1, 4 / 5), (0, 3 / 5)] else [(1, 1), (0, 0)]) i)"
  using demo_rankings by (simp add: less_Suc_eq)

subsection \<open>The evaluation with the similarity function as a parameter\<close>


lemma rounded_cosine_close: "\<bar>rounded_cosine u v - cosine u v\<bar> \<le> 1 / 2 ^ 24"
  by (simp add: rounded_cosine_def)
















section \<open>The claims\<close>

text \<open>
  Claim C1. For sentence lists of equal length \<open>N > 0\<close> (an evaluator that the
  constructor built) and an encoder that honours its contract, the call returns, and with
  \<open>cs\<close> the similarity matrix of the embeddings: \<open>acc_src2trg\<close> is the number of rows
  \<open>i\<close> of \<open>cs\<close> whose first maximum is at index \<open>i\<close>, divided by \<open>N\<close>, and
  \<open>acc_trg2src\<close> is the same count on the rows of the transposed matrix, divided by
  \<open>N\<close>. The matrix has \<open>N\<close> rows, so has its transpose, and entry \<open>(j, i)\<close> of the
  transpose is entry \<open>(i, j)\<close> of the matrix.
\<close>

theorem accuracies_count_first_maxima:
  assumes "init src trg spb bs nm pwm wcsv = Inr ev"
    and "src \<noteq> []"
    and "encodes model ev D e1 e2"
    and "csv_ready ev output_path w"
  shows "\<exists>cs out w'.
           similarity_matrix e1 e2 = Inr cs \<and>
           call ev model output_path epoch steps w = (Inr out, w') \<and>
           acc_src2trg out = real (matches cs) / real (length src) \<and>
           acc_trg2src out = real (matches (np_T cs)) / real (length src) \<and>
           length (rows cs) = length src \<and> length (rows (np_T cs)) = length src \<and>
           (\<forall>i<length src. \<forall>j<length src. rows (np_T cs) ! j ! i = rows cs ! i ! j)"
proof -
  let ?cs = "\<lparr>ncols = length e2, rows = map (\<lambda>u. map (\<lambda>v. cosine u v) e2) e1\<rparr>"
  note ev = init_Inr[OF assms(1)]
  have l1: "length e1 = length src" and l2: "length e2 = length src"
    and dims: "list_all (\<lambda>v. length v = D) (e1 @ e2)"
    using assms(3) ev by (simp_all add: encodes_def)
  have "e1 \<noteq> []" "e2 \<noteq> []" using assms(2) l1 l2 by auto
  then have sim: "similarity_matrix e1 e2 = Inr ?cs"
    using dims by (rule similarity_matrix_ok)
  define a1 where "a1 = real (matches ?cs) / real (length src)"
  define a2 where "a2 = real (matches (np_T ?cs)) / real (length src)"
  define out where "out = \<lparr>acc_src2trg = a1, acc_trg2src = a2, score = (a1 + a2) / 2\<rparr>"
  from call_outcome[OF assms refl a1_def a2_def, of epoch steps]
  obtain w' where call: "call ev model output_path epoch steps w = (Inr out, w')"
    unfolding out_def by blast
  have acc: "acc_src2trg out = a1" "acc_trg2src out = a2" by (simp_all add: out_def)
  have tr: "\<forall>i<length src. \<forall>j<length src. rows (np_T ?cs) ! j ! i = rows ?cs ! i ! j"
    by (simp add: np_T_def l1 l2)
  have len: "length (rows ?cs) = length src" "length (rows (np_T ?cs)) = length src"
    by (simp_all add: np_T_def l1 l2)
  show ?thesis
    using sim call acc[unfolded a1_def a2_def] len tr by blast
qed

theorem accuracies_count_first_maxima_witness:
  "init [''hello'', ''world''] [''bonjour'', ''monde''] False 16 [] True True = Inr demo_evaluator \<and>
   encodes demo_model demo_evaluator 2 [[3, 4], [0, 1]] [[1, 0], [0, 1]] \<and>
   csv_ready demo_evaluator (Some ''out'') demo_world \<and>
   (\<exists>out w'. call demo_evaluator demo_model (Some ''out'') 1 100 demo_world = (Inr out, w') \<and>
      acc_src2trg out = 1 / 2 \<and> acc_trg2src out = 1)"
proof -
  have ne: "[''hello'', ''world''] \<noteq> []" by simp
  from accuracies_count_first_maxima[OF demo_init ne demo_encodes demo_csv_ready, of 1 100]
  obtain cs out w' where
    "similarity_matrix [[3, 4], [0, 1]] [[1, 0], [0, 1]] = Inr cs"
    and c: "call demo_evaluator demo_model (Some ''out'') 1 100 demo_world = (Inr out, w')"
    and a: "acc_src2trg out = real (matches cs) / real (length [''hello'', ''world''])"
      "acc_trg2src out = real (matches (np_T cs)) / real (length [''hello'', ''world''])"
    by blast
  then have cs: "cs = \<lparr>ncols = 2, rows = [[3 / 5, 4 / 5], [0, 1]]\<rparr>"
    by (simp add: demo_similarity)
  have "acc_src2trg out = 1 / 2" "acc_trg2src out = 1"
    using a by (simp_all add: cs demo_matches)
  with c demo_init demo_encodes demo_csv_ready show ?thesis by blast
qed

text \<open>
  Claim C2. For sentence lists of equal length \<open>N > 0\<close> and an encoder that honours its
  contract, the call returns the mean of the two accuracies, and this value lies between 0
  and 1. The two accuracies are those of the evaluation: with \<open>cs\<close> the similarity matrix,
  \<open>acc_src2trg\<close> is \<open>matches cs / N\<close> and \<open>acc_trg2src\<close> is \<open>matches (np_T cs) / N\<close>, the
  value returned is the mean of these two quotients, and the two numbers are the ones that
  the call logs, times 100, in its second and third log line.
\<close>

theorem returned_score_is_mean_of_the_accuracies:
  assumes "init src trg spb bs nm pwm wcsv = Inr ev"
    and "src \<noteq> []"
    and "encodes model ev D e1 e2"
    and "csv_ready ev output_path w"
  shows "\<exists>cs out w'.
           similarity_matrix e1 e2 = Inr cs \<and>
           call ev model output_path epoch steps w = (Inr out, w') \<and>
           acc_src2trg out = real (matches cs) / real (length src) \<and>
           acc_trg2src out = real (matches (np_T cs)) / real (length src) \<and>
           score out =
             (real (matches cs) / real (length src)
              + real (matches (np_T cs)) / real (length src)) / 2 \<and>
           score out = (acc_src2trg out + acc_trg2src out) / 2 \<and>
           0 \<le> score out \<and> score out \<le> 1 \<and>
           log_lines w' =
             log_lines w
             @ [[Str ''Evaluating translation matching Accuracy on '', Str nm, Str '' dataset'']
                  @ out_txt epoch steps,
                [Str ''Accuracy src2trg: '', Fmt 2 (acc_src2trg out * 100)],
                [Str ''Accuracy trg2src: '', Fmt 2 (acc_trg2src out * 100)],
                [Str ''Evaluating translation similarity'']]"
proof -
  let ?cs = "\<lparr>ncols = length e2, rows = map (\<lambda>u. map (\<lambda>v. cosine u v) e2) e1\<rparr>"
  let ?N = "length src"
  note len = encodes_lengths[OF assms(1,3)]
  have dims: "list_all (\<lambda>v. length v = D) (e1 @ e2)"
    using assms(3) by (simp add: encodes_def)
  have "e1 \<noteq> []" "e2 \<noteq> []" using assms(2) len by auto
  then have sim: "similarity_matrix e1 e2 = Inr ?cs"
    using dims by (rule similarity_matrix_ok)
  define a1 where "a1 = real (matches ?cs) / real ?N"
  define a2 where "a2 = real (matches (np_T ?cs)) / real ?N"
  define out where "out = \<lparr>acc_src2trg = a1, acc_trg2src = a2, score = (a1 + a2) / 2\<rparr>"
  from call_outcome[OF assms refl a1_def a2_def, of epoch steps]
  obtain w' where
    callu: "call ev model output_path epoch steps w =
              (Inr \<lparr>acc_src2trg = a1, acc_trg2src = a2, score = (a1 + a2) / 2\<rparr>, w')"
    and logu: "log_lines w' =
             log_lines w
             @ [[Str ''Evaluating translation matching Accuracy on '', Str nm, Str '' dataset'']
                  @ out_txt epoch steps,
                [Str ''Accuracy src2trg: '', Fmt 2 (a1 * 100)],
                [Str ''Accuracy trg2src: '', Fmt 2 (a2 * 100)],
                [Str ''Evaluating translation similarity'']]"
    by (elim exE conjE) (rule that, assumption+)
  have call: "call ev model output_path epoch steps w = (Inr out, w')"
    unfolding out_def by (rule callu)
  have acc: "acc_src2trg out = a1" "acc_trg2src out = a2" "score out = (a1 + a2) / 2"
    by (simp_all add: out_def)
  have N: "0 < ?N" using assms(2) by simp
  have "matches ?cs \<le> ?N" using matches_le[of ?cs] by (simp add: len)
  then have 1: "0 \<le> a1 \<and> a1 \<le> 1" using N by (simp add: a1_def)
  have "matches (np_T ?cs) \<le> ?N" using matches_le[of "np_T ?cs"] by (simp add: np_T_rows len)
  then have 2: "0 \<le> a2 \<and> a2 \<le> 1" using N by (simp add: a2_def)
  show ?thesis
  proof (intro exI conjI)
    show "similarity_matrix e1 e2 = Inr ?cs" by (rule sim)
    show "call ev model output_path epoch steps w = (Inr out, w')" by (rule call)
    show "acc_src2trg out = real (matches ?cs) / real ?N" by (simp add: acc a1_def)
    show "acc_trg2src out = real (matches (np_T ?cs)) / real ?N" by (simp add: acc a2_def)
    show "score out = (real (matches ?cs) / real ?N + real (matches (np_T ?cs)) / real ?N) / 2"
      by (simp add: acc a1_def a2_def)
    show "score out = (acc_src2trg out + acc_trg2src out) / 2" by (simp add: acc)
    show "0 \<le> score out" using 1 2 by (simp add: acc)
    show "score out \<le> 1" using 1 2 by (simp add: acc)
    show "log_lines w' =
             log_lines w
             @ [[Str ''Evaluating translation matching Accuracy on '', Str nm, Str '' dataset'']
                  @ out_txt epoch steps,
                [Str ''Accuracy src2trg: '', Fmt 2 (acc_src2trg out * 100)],
                [Str ''Accuracy trg2src: '', Fmt 2 (acc_trg2src out * 100)],
                [Str ''Evaluating translation similarity'']]"
      unfolding acc by (rule logu)
  qed
qed

theorem returned_score_is_mean_of_the_accuracies_witness:
  "init [''hello'', ''world''] [''bonjour'', ''monde''] False 16 [] True True = Inr demo_evaluator \<and>
   encodes demo_model demo_evaluator 2 [[3, 4], [0, 1]] [[1, 0], [0, 1]] \<and>
   csv_ready demo_evaluator None demo_world \<and>
   (\<exists>out w'. call demo_evaluator demo_model None (- 1) (- 1) demo_world = (Inr out, w') \<and>
      acc_src2trg out = 1 / 2 \<and> acc_trg2src out = 1 \<and> score out = 3 / 4 \<and>
      log_lines w' =
        [[Str ''Evaluating translation matching Accuracy on '', Str [], Str '' dataset'', Str '':''],
         [Str ''Accuracy src2trg: '', Fmt 2 50],
         [Str ''Accuracy trg2src: '', Fmt 2 100],
         [Str ''Evaluating translation similarity'']])"
proof -
  have ne: "[''hello'', ''world''] \<noteq> []" by simp
  have csv: "csv_ready demo_evaluator None demo_world" by (simp add: csv_ready_def)
  from returned_score_is_mean_of_the_accuracies[OF demo_init ne demo_encodes csv, of "- 1" "- 1"]
  obtain cs out w' where
    sim: "similarity_matrix [[3, 4], [0, 1]] [[1, 0], [0, 1]] = Inr cs"
    and c: "call demo_evaluator demo_model None (- 1) (- 1) demo_world = (Inr out, w')"
    and a: "acc_src2trg out = real (matches cs) / real (length [''hello'', ''world''])"
      "acc_trg2src out = real (matches (np_T cs)) / real (length [''hello'', ''world''])"
    and s: "score out = (acc_src2trg out + acc_trg2src out) / 2"
    and l: "log_lines w' =
             log_lines demo_world
             @ [[Str ''Evaluating translation matching Accuracy on '', Str [], Str '' dataset'']
                  @ out_txt (- 1) (- 1),
                [Str ''Accuracy src2trg: '', Fmt 2 (acc_src2trg out * 100)],
                [Str ''Accuracy trg2src: '', Fmt 2 (acc_trg2src out * 100)],
                [Str ''Evaluating translation similarity'']]"
    by (elim exE conjE) (rule that, assumption+)
  have cs: "cs = \<lparr>ncols = 2, rows = [[3 / 5, 4 / 5], [0, 1]]\<rparr>"
    using sim by (simp add: demo_similarity)
  have v: "acc_src2trg out = 1 / 2" "acc_trg2src out = 1"
    using a by (simp_all add: cs demo_matches)
  have sc: "score out = 3 / 4" using s by (simp add: v)
  have l': "log_lines w' =
        [[Str ''Evaluating translation matching Accuracy on '', Str [], Str '' dataset'', Str '':''],
         [Str ''Accuracy src2trg: '', Fmt 2 50],
         [Str ''Accuracy trg2src: '', Fmt 2 100],
         [Str ''Evaluating translation similarity'']]"
    unfolding l by (simp add: v out_txt_def demo_world_def)
  have "\<exists>out w'. call demo_evaluator demo_model None (- 1) (- 1) demo_world = (Inr out, w') \<and>
      acc_src2trg out = 1 / 2 \<and> acc_trg2src out = 1 \<and> score out = 3 / 4 \<and>
      log_lines w' =
        [[Str ''Evaluating translation matching Accuracy on '', Str [], Str '' dataset'', Str '':''],
         [Str ''Accuracy src2trg: '', Fmt 2 50],
         [Str ''Accuracy trg2src: '', Fmt 2 100],
         [Str ''Evaluating translation similarity'']]"
    using c v sc l' by (intro exI[of _ out] exI[of _ w'] conjI)
  with demo_init demo_encodes csv show ?thesis by (intro conjI)
qed

text \<open>
  Claim C3. The constructor fails, with the assertion error, exactly when the two lists
  of sentences have different lengths, and succeeds exactly when they have the same length.
  The constructor has no model and touches nothing outside: in a client that constructs
  and then calls, a failing construction returns the assertion error and leaves the world,
  with its record of the calls of the encoder, as it was; otherwise the client goes on
  to call the evaluator that the constructor built.
\<close>

theorem construction_fails_iff_lengths_differ:
  "(init src trg spb bs nm pwm wcsv = Inl AssertionError) = (length src \<noteq> length trg) \<and>
   (\<exists>ev. init src trg spb bs nm pwm wcsv = Inr ev) = (length src = length trg) \<and>
   construct_and_call src trg spb bs nm pwm wcsv model output_path epoch steps w =
     (if length src \<noteq> length trg then (Inl AssertionError, w)
      else call \<lparr>source_sentences = src, target_sentences = trg, name = nm, batch_size = bs,
               show_progress_bar = spb, print_wrong_matches = pwm,
               csv_file = ''translation_evaluation'' @ (if nm \<noteq> [] then ''_'' @ nm else nm)
                          @ ''_results.csv'',
               csv_headers = [''epoch'', ''steps'', ''src2trg'', ''trg2src''],
               write_csv = wcsv\<rparr> model output_path epoch steps w)"
  by (simp add: init_def construct_and_call_def)

theorem construction_fails_iff_lengths_differ_witness:
  "init [''a'', ''b'', ''c''] [''x'', ''y''] False 16 [] False True = Inl AssertionError \<and>
   construct_and_call [''a'', ''b'', ''c''] [''x'', ''y''] False 16 [] False True demo_model
     (Some ''out'') (- 1) (- 1) demo_world = (Inl AssertionError, demo_world) \<and>
   init [''hello'', ''world''] [''bonjour'', ''monde''] False 16 [] True True = Inr demo_evaluator"
  using construction_fails_iff_lengths_differ
          [of "[''a'', ''b'', ''c'']" "[''x'', ''y'']" False 16 "[]" False True demo_model
              "Some ''out''" "- 1" "- 1" demo_world]
    demo_init
  by simp




text \<open>
  Claim C5. With \<open>write_csv\<close> true and an output path \<open>dir\<close>, after \<open>k \<ge> 1\<close> calls
  of one evaluator, each with an encoder that honours its contract, the file
  \<open>translation_evaluation[_name]_results.csv\<close> joined to \<open>dir\<close> holds: when it did not exist
  before the first call, the header row \<open>epoch, steps, src2trg, trg2src\<close> followed by the
  \<open>k\<close> rows \<open>(epoch, steps, acc_src2trg, acc_trg2src)\<close> of the calls, in the order of the
  calls; when it existed, what it held followed by the same \<open>k\<close> rows, with no header
  added.
\<close>

theorem csv_file_after_calls:
  assumes "init src trg spb bs nm pwm True = Inr ev"
    and "src \<noteq> []"
    and "list_all (\<lambda>c. encoder_ok (fst c) ev) cl"
    and "cl \<noteq> []"
    and "csv_ready ev (Some dir) w"
    and "path = os_path_join dir
                  (''translation_evaluation'' @ (if nm \<noteq> [] then ''_'' @ nm else nm) @ ''_results.csv'')"
    and "header = [Str ''epoch'', Str ''steps'', Str ''src2trg'', Str ''trg2src'']"
  shows "\<exists>outs w'.
           calls ev (Some dir) cl w = (Inr outs, w') \<and> length outs = length cl \<and>
           (fs w path = None \<longrightarrow>
              fs w' path = Some (File (header # map csv_row (zip cl outs)))) \<and>
           (\<forall>content. fs w path = Some (File content) \<longrightarrow>
              fs w' path = Some (File (content @ map csv_row (zip cl outs))))"
proof -
  have p: "path = os_path_join dir (csv_file ev)"
    using init_Inr(2)[OF assms(1)] assms(6) by simp
  from calls_csv[OF assms(1,2,3,5) p]
  obtain outs w' where c: "calls ev (Some dir) cl w = (Inr outs, w')"
    and len: "length outs = length cl"
    and f: "fs w' =
             (if cl = [] then fs w
              else (fs w)(path \<mapsto>
                     File ((case fs w path of
                              Some (File content) \<Rightarrow> content
                            | _ \<Rightarrow> [[Str ''epoch'', Str ''steps'', Str ''src2trg'', Str ''trg2src'']])
                           @ map csv_row (zip cl outs))))"
    by blast
  have 1: "fs w path = None \<longrightarrow> fs w' path = Some (File (header # map csv_row (zip cl outs)))"
    using assms(4) by (simp add: f assms(7))
  have 2: "\<forall>content. fs w path = Some (File content) \<longrightarrow>
              fs w' path = Some (File (content @ map csv_row (zip cl outs)))"
    using assms(4) by (simp add: f)
  show ?thesis
  proof (intro exI conjI)
    show "calls ev (Some dir) cl w = (Inr outs, w')" by (rule c)
    show "length outs = length cl" by (rule len)
    show "fs w path = None \<longrightarrow> fs w' path = Some (File (header # map csv_row (zip cl outs)))"
      by (rule 1)
    show "\<forall>content. fs w path = Some (File content) \<longrightarrow>
              fs w' path = Some (File (content @ map csv_row (zip cl outs)))"
      by (rule 2)
  qed
qed

theorem csv_file_after_calls_witness:
  "init [''hello'', ''world''] [''bonjour'', ''monde''] False 16 [] True True = Inr demo_evaluator \<and>
   list_all (\<lambda>c. encoder_ok (fst c) demo_evaluator)
     [(demo_model, 1 :: int, 100 :: int), (doubled_model, 2, 200)] \<and>
   csv_ready demo_evaluator (Some ''out'') demo_world \<and>
   fs demo_world ''out/translation_evaluation_results.csv'' = None \<and>
   (\<exists>outs w'.
      calls demo_evaluator (Some ''out'') [(demo_model, 1, 100), (doubled_model, 2, 200)] demo_world
        = (Inr outs, w') \<and>
      fs w' ''out/translation_evaluation_results.csv'' =
        Some (File [[Str ''epoch'', Str ''steps'', Str ''src2trg'', Str ''trg2src''],
                    [Dec 1, Dec 100, Num (1 / 2), Num 1],
                    [Dec 2, Dec 200, Num (1 / 2), Num 1]]))"
proof -
  let ?cl = "[(demo_model, 1 :: int, 100 :: int), (doubled_model, 2, 200)]"
  let ?o = "\<lparr>acc_src2trg = 1 / 2, acc_trg2src = 1, score = 3 / 4\<rparr>"
  have ne: "[''hello'', ''world''] \<noteq> []" and cl: "?cl \<noteq> []" by simp_all
  have path: "''out/translation_evaluation_results.csv'' =
      os_path_join ''out'' (''translation_evaluation'' @ (if [] \<noteq> [] then ''_'' @ [] else []) @ ''_results.csv'')"
    by (simp add: os_path_join_def)
  have absent: "fs demo_world ''out/translation_evaluation_results.csv'' = None"
    by (simp add: demo_world_def)
  have j: "os_path_join ''out'' ''translation_evaluation_results.csv'' =
      ''out/translation_evaluation_results.csv''"
    by (simp add: os_path_join_def)
  from demo_call[OF demo_csv_ready, of 1 100]
  obtain w1 where c1: "call demo_evaluator demo_model (Some ''out'') 1 100 demo_world = (Inr ?o, w1)"
    and f1: "fs w1 ''out/translation_evaluation_results.csv'' =
               Some (File [[Str ''epoch'', Str ''steps'', Str ''src2trg'', Str ''trg2src''],
                           [Dec 1, Dec 100, Num (1 / 2), Num 1]])"
    unfolding j by (auto simp: absent)
  have ready: "csv_ready demo_evaluator (Some ''out'') w1"
    by (simp add: csv_ready_def demo_evaluator_def j f1)
  from doubled_call[OF ready, of 2 200]
  obtain w2 where c2: "call demo_evaluator doubled_model (Some ''out'') 2 200 w1 = (Inr ?o, w2)"
    unfolding j by auto
  have run: "calls demo_evaluator (Some ''out'') ?cl demo_world = (Inr [?o, ?o], w2)"
    by (simp add: c1 c2)
  from csv_file_after_calls
         [OF demo_init ne demo_encoders_ok cl demo_csv_ready path refl]
  obtain outs w' where
    c: "calls demo_evaluator (Some ''out'') ?cl demo_world = (Inr outs, w')"
    and f: "fs demo_world ''out/translation_evaluation_results.csv'' = None \<longrightarrow>
            fs w' ''out/translation_evaluation_results.csv'' =
              Some (File ([Str ''epoch'', Str ''steps'', Str ''src2trg'', Str ''trg2src'']
                          # map csv_row (zip ?cl outs)))"
    by (elim exE conjE) (rule that, assumption+)
  have outs: "outs = [?o, ?o]" using c run by simp
  have "fs w' ''out/translation_evaluation_results.csv'' =
        Some (File [[Str ''epoch'', Str ''steps'', Str ''src2trg'', Str ''trg2src''],
                    [Dec 1, Dec 100, Num (1 / 2), Num 1],
                    [Dec 2, Dec 200, Num (1 / 2), Num 1]])"
    using f absent by (simp add: outs csv_row_def)
  with c have "\<exists>outs w'.
      calls demo_evaluator (Some ''out'') ?cl demo_world = (Inr outs, w') \<and>
      fs w' ''out/translation_evaluation_results.csv'' =
        Some (File [[Str ''epoch'', Str ''steps'', Str ''src2trg'', Str ''trg2src''],
                    [Dec 1, Dec 100, Num (1 / 2), Num 1],
                    [Dec 2, Dec 200, Num (1 / 2), Num 1]])"
    by (intro exI conjI)
  with demo_init demo_encoders_ok demo_csv_ready absent show ?thesis
    by (intro conjI)
qed

text \<open>
  Claim C6, as amended. On no sentences, with an encoder that returns no embeddings, the
  call defines no accuracy and does not reach the division by \<open>N\<close>: it fails with the
  error that \<^verbatim>\<open>torch.stack\<close> raises on an empty list, after the first log line and the two
  calls of the encoder. The evaluator has no guard of its own for this case. The
  counterexample that follows the theorem and its witness shows the claim as it was stated
  to fail: the result on the empty lists is neither an accuracy of 0 nor an error that the
  evaluator raises itself.
\<close>

theorem empty_lists_fail_in_stack:
  assumes "init [] [] spb bs nm pwm wcsv = Inr ev"
    and "model [] spb bs = Inr []"
  shows "call ev model output_path epoch steps w =
           (Inl RuntimeError,
            note_encode [] spb bs
              (note_encode [] spb bs
                (logger_info
                  ([Str ''Evaluating translation matching Accuracy on '', Str nm, Str '' dataset'']
                   @ out_txt epoch steps) w)))"
proof -
  note ev = init_Inr[OF assms(1)]
  have f: "source_sentences ev = []" "target_sentences ev = []" "name ev = nm"
    "batch_size ev = bs" "show_progress_bar ev = spb"
    by (simp_all add: ev(2))
  have sim: "similarity_matrix [] [] = Inl RuntimeError"
    by (simp add: similarity_matrix_def torch_stack_def)
  show "call ev model output_path epoch steps w =
           (Inl RuntimeError,
            note_encode [] spb bs
              (note_encode [] spb bs
                (logger_info
                  ([Str ''Evaluating translation matching Accuracy on '', Str nm, Str '' dataset'']
                   @ out_txt epoch steps) w)))"
    unfolding call_def Let_def by (simp only: f assms(2) sim sum.case)
qed

theorem empty_lists_fail_in_stack_witness:
  "init [] [] False 16 [] True True =
     Inr (demo_evaluator\<lparr>source_sentences := [], target_sentences := []\<rparr>) \<and>
   demo_model [] False 16 = Inr [] \<and>
   call (demo_evaluator\<lparr>source_sentences := [], target_sentences := []\<rparr>) demo_model
        (Some ''out'') (- 1) (- 1) demo_world =
     (Inl RuntimeError,
      demo_world\<lparr>log_lines := [[Str ''Evaluating translation matching Accuracy on '', Str [],
                                 Str '' dataset'', Str '':'']],
                 encode_calls := [([], False, 16), ([], False, 16)]\<rparr>)"
proof -
  have m: "demo_model [] False 16 = Inr []" by (simp add: demo_model_def)
  from empty_lists_fail_in_stack
         [where model = demo_model and output_path = "Some ''out''" and epoch = "- 1"
            and steps = "- 1" and w = demo_world, OF empty_init m]
    empty_init m
  show ?thesis
    by (simp add: note_encode_def logger_info_def out_txt_def demo_world_def)
qed

theorem empty_lists_counterexample:
  "fst (call (demo_evaluator\<lparr>source_sentences := [], target_sentences := []\<rparr>) demo_model
          None (- 1) (- 1) demo_world) = Inl RuntimeError \<and>
   \<not> empty_input_handled
        (fst (call (demo_evaluator\<lparr>source_sentences := [], target_sentences := []\<rparr>) demo_model
               None (- 1) (- 1) demo_world))"
proof -
  have sim: "similarity_matrix [] [] = Inl RuntimeError"
    by (simp add: similarity_matrix_def torch_stack_def)
  have "fst (call (demo_evaluator\<lparr>source_sentences := [], target_sentences := []\<rparr>) demo_model
          None (- 1) (- 1) demo_world) = Inl RuntimeError"
    by (simp add: call_def Let_def demo_evaluator_def demo_model_def sim)
  then show ?thesis by (simp add: empty_input_handled_def raised_by_evaluator_def)
qed

text \<open>
  Claim C7. Entry \<open>(i, j)\<close> of the similarity matrix is the dot product of source
  embedding \<open>i\<close> and target embedding \<open>j\<close> divided by the product of their Euclidean
  norms when both norms are not 0, and is 0 when one of the norms is 0. The norm is the
  square root of the sum of the squares, the dot product the sum of the products of the
  components. (The function that computes the matrix is modelled from the specification.)
\<close>

theorem similarity_entries_are_cosines:
  assumes "similarity_matrix e1 e2 = Inr cs"
    and "i < length e1" and "j < length e2"
  shows "(l2_norm (e1 ! i) \<noteq> 0 \<and> l2_norm (e2 ! j) \<noteq> 0 \<longrightarrow>
            rows cs ! i ! j = dot (e1 ! i) (e2 ! j) / (l2_norm (e1 ! i) * l2_norm (e2 ! j))) \<and>
         (l2_norm (e1 ! i) = 0 \<or> l2_norm (e2 ! j) = 0 \<longrightarrow> rows cs ! i ! j = 0) \<and>
         l2_norm (e1 ! i) = sqrt (\<Sum>x\<leftarrow>e1 ! i. x\<^sup>2) \<and>
         l2_norm (e2 ! j) = sqrt (\<Sum>x\<leftarrow>e2 ! j. x\<^sup>2) \<and>
         (length (e1 ! i) = length (e2 ! j) \<longrightarrow>
            dot (e1 ! i) (e2 ! j) = (\<Sum>k<length (e1 ! i). e1 ! i ! k * e2 ! j ! k))"
proof -
  have cs: "rows cs = map (\<lambda>u. map (\<lambda>v. cosine u v) e2) e1"
    using assms(1)
    by (auto simp: similarity_matrix_def torch_stack_def pytorch_cos_sim_def
        split: list.splits if_splits)
  have entry: "rows cs ! i ! j = cosine (e1 ! i) (e2 ! j)"
    using assms(2,3) by (simp add: cs)
  have sq: "dot u u = (\<Sum>x\<leftarrow>u. x\<^sup>2)" for u
    unfolding dot_def by (induction u) (simp_all add: power2_eq_square)
  have dt: "length u = length v \<Longrightarrow> dot u v = (\<Sum>k<length u. u ! k * v ! k)" for u v
  proof (induction u v rule: list_induct2)
    case Nil
    then show ?case by (simp add: dot_def)
  next
    case (Cons x xs y ys)
    then show ?case
      by (simp add: dot_def sum.lessThan_Suc_shift del: sum.lessThan_Suc)
  qed
  show ?thesis
    using dt[of "e1 ! i" "e2 ! j"]
    by (simp add: entry cosine_def l2_norm_def sq)
qed

theorem similarity_entries_are_cosines_witness:
  "similarity_matrix [[3, 4], [0, 1]] [[1, 0], [0, 1]] = Inr \<lparr>ncols = 2, rows = [[3 / 5, 4 / 5], [0, 1]]\<rparr> \<and>
   l2_norm [3, 4] = 5 \<and> l2_norm [0, 1] = 1 \<and> dot [3, 4] [0, 1] = 4 \<and>
   rows \<lparr>ncols = 2, rows = [[3 / 5, 4 / 5], [0, 1]]\<rparr> ! 0 ! 1 = dot [3, 4] [0, 1] / (l2_norm [3, 4] * l2_norm [0, 1])"
proof -
  have n: "l2_norm [3, 4] = 5" "l2_norm [0, 1] = 1" "dot [3, 4] [0, 1] = 4"
    by (simp_all add: l2_norm_def dot_def sqrt_25)
  have i: "(0::nat) < length [[3, 4], [0, 1::real]]" and j: "(1::nat) < length [[1, 0], [0, 1::real]]"
    by simp_all
  from similarity_entries_are_cosines[OF demo_similarity i j] n demo_similarity
  show ?thesis by simp
qed

text \<open>
  Claim C8. With \<open>print_wrong_matches\<close> enabled, and with \<open>km i\<close> the first maximum of
  row \<open>i\<close> and \<open>rk i\<close> the ranking of row \<open>i\<close> by descending score, the lower index first
  among equal scores: the call prints, for every row \<open>i\<close> with \<open>km i \<noteq> i\<close> and for no
  other row, in the order of the rows, the two indices, the source sentence \<open>i\<close>, the
  target sentence \<open>km i\<close>, the scores at \<open>km i\<close> and at \<open>i\<close>, and one line for each of the
  first five entries of the ranking; the four lines of the statistics follow.
\<close>

theorem wrong_matches_are_printed:
  assumes "init src trg spb bs nm True wcsv = Inr ev"
    and "src \<noteq> []"
    and "encodes model ev D e1 e2"
    and "csv_ready ev output_path w"
    and "similarity_matrix e1 e2 = Inr cs"
    and "\<forall>i<length src. first_max (rows cs ! i) (km i)"
    and "\<forall>i<length src. ranking (rows cs ! i) (rk i)"
  shows "\<exists>out w' st.
           call ev model output_path epoch steps w = (Inr out, w') \<and>
           diagnostics e1 e2 = Inr st \<and>
           console w' =
             console w
             @ concat (map (\<lambda>i. if km i = i then []
                                  else mismatch_report ev (rows cs ! i) i (km i) (rk i))
                         [0..<length src])
             @ diagnostic_lines st"
proof -
  let ?cs = "\<lparr>ncols = length e2, rows = map (\<lambda>u. map (\<lambda>v. cosine u v) e2) e1\<rparr>"
  let ?st = "\<lparr>cosine_scores = [1 - paired_cosine_distances (flatten e1) (flatten e2)],
             manhattan_distances = [- paired_manhattan_distances (flatten e1) (flatten e2)],
             euclidean_distances = [- paired_euclidean_distances (flatten e1) (flatten e2)],
             dot_products = [dot (flatten e1) (flatten e2)]\<rparr>"
  note len = encodes_lengths[OF assms(1,3)]
  have dims: "list_all (\<lambda>v. length v = D) (e1 @ e2)" and D: "0 < D"
    using assms(3) by (simp_all add: encodes_def)
  have e: "e1 \<noteq> []" "e2 \<noteq> []" using assms(2) len by auto
  have cs: "cs = ?cs"
    using assms(5) similarity_matrix_ok[OF e dims] by simp
  have st: "diagnostics e1 e2 = Inr ?st"
    by (rule diagnostics_ok[OF e(1) _ dims D]) (simp add: len)
  define a1 where "a1 = real (matches cs) / real (length src)"
  define a2 where "a2 = real (matches (np_T cs)) / real (length src)"
  from call_returns[OF assms(1,2,3,4) cs assms(6,7) a1_def a2_def, of epoch steps]
  obtain w' where
    c: "call ev model output_path epoch steps w =
          (Inr \<lparr>acc_src2trg = a1, acc_trg2src = a2, score = (a1 + a2) / 2\<rparr>, w')"
    and con: "console w' = console w
                 @ concat (map (\<lambda>i. if first_max (rows cs ! i) i \<or> \<not> True then []
                                      else mismatch_report ev (rows cs ! i) i (km i) (rk i))
                             [0..<length src])
                 @ diagnostic_lines ?st"
    by (elim exE conjE) (rule that, assumption+)
  have "map (\<lambda>i. if first_max (rows cs ! i) i \<or> \<not> True then []
                    else mismatch_report ev (rows cs ! i) i (km i) (rk i)) [0..<length src]
        = map (\<lambda>i. if km i = i then []
                    else mismatch_report ev (rows cs ! i) i (km i) (rk i)) [0..<length src]"
  proof (rule map_cong[OF refl])
    fix i assume "i \<in> set [0..<length src]"
    then have "first_max (rows cs ! i) (km i)" using assms(6) by simp
    then have "first_max (rows cs ! i) i = (km i = i)"
      using first_max_unique by auto
    then show "(if first_max (rows cs ! i) i \<or> \<not> True then []
                else mismatch_report ev (rows cs ! i) i (km i) (rk i))
             = (if km i = i then [] else mismatch_report ev (rows cs ! i) i (km i) (rk i))"
      by simp
  qed
  then have con': "console w' =
             console w
             @ concat (map (\<lambda>i. if km i = i then []
                                  else mismatch_report ev (rows cs ! i) i (km i) (rk i))
                         [0..<length src])
             @ diagnostic_lines ?st"
    by (simp only: con)
  show ?thesis
  proof (intro exI conjI)
    show "call ev model output_path epoch steps w =
          (Inr \<lparr>acc_src2trg = a1, acc_trg2src = a2, score = (a1 + a2) / 2\<rparr>, w')" by (rule c)
    show "diagnostics e1 e2 = Inr ?st" by (rule st)
    show "console w' =
             console w
             @ concat (map (\<lambda>i. if km i = i then []
                                  else mismatch_report ev (rows cs ! i) i (km i) (rk i))
                         [0..<length src])
             @ diagnostic_lines ?st" by (rule con')
  qed
qed

theorem wrong_matches_are_printed_witness:
  "init [''hello'', ''world''] [''bonjour'', ''monde''] False 16 [] True True = Inr demo_evaluator \<and>
   encodes demo_model demo_evaluator 2 [[3, 4], [0, 1]] [[1, 0], [0, 1]] \<and>
   csv_ready demo_evaluator (Some ''out'') demo_world \<and>
   similarity_matrix [[3, 4], [0, 1]] [[1, 0], [0, 1]] =
     Inr \<lparr>ncols = 2, rows = [[3 / 5, 4 / 5], [0, 1]]\<rparr> \<and>
   first_max [3 / 5, 4 / 5] 1 \<and> first_max [0, 1] 1 \<and>
   ranking [3 / 5, 4 / 5] [(1, 4 / 5), (0, 3 / 5)] \<and> ranking [0, 1] [(1, 1), (0, 0)] \<and>
   (\<exists>out w' st.
      call demo_evaluator demo_model (Some ''out'') 1 100 demo_world = (Inr out, w') \<and>
      diagnostics [[3, 4], [0, 1]] [[1, 0], [0, 1]] = Inr st \<and>
      console w' =
        [[Str ''i:'', Dec 0, Str ''j:'', Dec 1, Str ''INCORRECT''],
         [Str ''Src:'', Str ''hello''],
         [Str ''Trg:'', Str ''monde''],
         [Str ''Argmax score:'', Num (4 / 5), Str ''vs. correct score:'', Num (3 / 5)],
         [Str [CHR 0x09], Dec 1, Cat (Str ''(Score: '') (Cat (Fmt 4 (4 / 5)) (Str '')'')), Str ''monde''],
         [Str [CHR 0x09], Dec 0, Cat (Str ''(Score: '') (Cat (Fmt 4 (3 / 5)) (Str '')'')), Str ''bonjour'']]
        @ diagnostic_lines st)"
proof -
  have ne: "[''hello'', ''world''] \<noteq> []" by simp
  from wrong_matches_are_printed
         [OF demo_init ne demo_encodes demo_csv_ready demo_similarity demo_first_maxima
             demo_rankings_all, of 1 100]
  obtain out w' st where
    c: "call demo_evaluator demo_model (Some ''out'') 1 100 demo_world = (Inr out, w')"
    and d: "diagnostics [[3, 4], [0, 1]] [[1, 0], [0, 1]] = Inr st"
    and con: "console w' =
             console demo_world
             @ concat (map (\<lambda>i. if (1::nat) = i then []
                                  else mismatch_report demo_evaluator
                                         (rows \<lparr>ncols = 2, rows = [[3 / 5, 4 / 5], [0, 1]]\<rparr> ! i) i 1
                                         (if i = 0 then [(1, 4 / 5), (0, 3 / 5)] else [(1, 1), (0, 0)]))
                         [0..<length [''hello'', ''world'']])
             @ diagnostic_lines st"
    by (elim exE conjE) (rule that, assumption+)
  have con': "console w' =
        [[Str ''i:'', Dec 0, Str ''j:'', Dec 1, Str ''INCORRECT''],
         [Str ''Src:'', Str ''hello''],
         [Str ''Trg:'', Str ''monde''],
         [Str ''Argmax score:'', Num (4 / 5), Str ''vs. correct score:'', Num (3 / 5)],
         [Str [CHR 0x09], Dec 1, Cat (Str ''(Score: '') (Cat (Fmt 4 (4 / 5)) (Str '')'')), Str ''monde''],
         [Str [CHR 0x09], Dec 0, Cat (Str ''(Score: '') (Cat (Fmt 4 (3 / 5)) (Str '')'')), Str ''bonjour'']]
        @ diagnostic_lines st"
    unfolding con
    by (simp add: upt_rec mismatch_report_def candidate_line_def demo_evaluator_def demo_world_def)
  have fm: "first_max [3 / 5, 4 / 5] 1" "first_max [0, 1] 1"
    by (simp_all add: first_max_pair)
  have "\<exists>out w' st.
      call demo_evaluator demo_model (Some ''out'') 1 100 demo_world = (Inr out, w') \<and>
      diagnostics [[3, 4], [0, 1]] [[1, 0], [0, 1]] = Inr st \<and>
      console w' =
        [[Str ''i:'', Dec 0, Str ''j:'', Dec 1, Str ''INCORRECT''],
         [Str ''Src:'', Str ''hello''],
         [Str ''Trg:'', Str ''monde''],
         [Str ''Argmax score:'', Num (4 / 5), Str ''vs. correct score:'', Num (3 / 5)],
         [Str [CHR 0x09], Dec 1, Cat (Str ''(Score: '') (Cat (Fmt 4 (4 / 5)) (Str '')'')), Str ''monde''],
         [Str [CHR 0x09], Dec 0, Cat (Str ''(Score: '') (Cat (Fmt 4 (3 / 5)) (Str '')'')), Str ''bonjour'']]
        @ diagnostic_lines st"
    using c d con' by (intro exI conjI)
  with demo_init demo_encodes demo_csv_ready demo_similarity fm demo_rankings
  show ?thesis by (intro conjI)
qed

text \<open>
  Claim C9. Each of the four statistics is one number, computed between the
  concatenation of all source embeddings and the concatenation of all target embeddings:
  one minus the cosine distance of scikit-learn (the cosine of the two vectors when
  neither is zero), the negated Manhattan distance, the negated Euclidean distance and the
  dot product. They are printed after the mismatches. The outcome does not depend on
  them: a second model whose embeddings have the same similarity matrix gives the same
  outcome, whatever its statistics are.
\<close>

theorem statistics_of_the_flattened_embeddings:
  assumes "init src trg spb bs nm pwm wcsv = Inr ev"
    and "src \<noteq> []"
    and "encodes model ev D e1 e2"
    and "csv_ready ev output_path w"
    and "encodes model' ev D' e1' e2'"
    and "similarity_matrix e1' e2' = similarity_matrix e1 e2"
  shows "\<exists>out w1 w2 st printed.
           call ev model output_path epoch steps w = (Inr out, w1) \<and>
           diagnostics e1 e2 = Inr st \<and>
           console w1 = console w @ printed @ diagnostic_lines st \<and>
           cosine_scores st = [1 - paired_cosine_distances (concat e1) (concat e2)] \<and>
           manhattan_distances st = [- paired_manhattan_distances (concat e1) (concat e2)] \<and>
           euclidean_distances st = [- paired_euclidean_distances (concat e1) (concat e2)] \<and>
           dot_products st = [dot (concat e1) (concat e2)] \<and>
           (l2_norm (concat e1) \<noteq> 0 \<and> l2_norm (concat e2) \<noteq> 0 \<longrightarrow>
              cosine_scores st = [cosine (concat e1) (concat e2)]) \<and>
           call ev model' output_path epoch steps w = (Inr out, w2)"
proof -
  let ?cs = "\<lparr>ncols = length e2, rows = map (\<lambda>u. map (\<lambda>v. cosine u v) e2) e1\<rparr>"
  let ?cs' = "\<lparr>ncols = length e2', rows = map (\<lambda>u. map (\<lambda>v. cosine u v) e2') e1'\<rparr>"
  let ?st = "\<lparr>cosine_scores = [1 - paired_cosine_distances (flatten e1) (flatten e2)],
             manhattan_distances = [- paired_manhattan_distances (flatten e1) (flatten e2)],
             euclidean_distances = [- paired_euclidean_distances (flatten e1) (flatten e2)],
             dot_products = [dot (flatten e1) (flatten e2)]\<rparr>"
  note len = encodes_lengths[OF assms(1,3)] and len' = encodes_lengths[OF assms(1,5)]
  have dims: "list_all (\<lambda>v. length v = D) (e1 @ e2)" and D: "0 < D"
    using assms(3) by (simp_all add: encodes_def)
  have dims': "list_all (\<lambda>v. length v = D') (e1' @ e2')"
    using assms(5) by (simp_all add: encodes_def)
  have e: "e1 \<noteq> []" "e2 \<noteq> []" and e': "e1' \<noteq> []" "e2' \<noteq> []"
    using assms(2) len len' by auto
  have same: "?cs' = ?cs"
    using assms(6) similarity_matrix_ok[OF e dims] similarity_matrix_ok[OF e' dims'] by simp
  have st: "diagnostics e1 e2 = Inr ?st"
    by (rule diagnostics_ok[OF e(1) _ dims D]) (simp add: len)
  define km where "km = (\<lambda>i. SOME k. first_max (rows ?cs ! i) k)"
  define rk where "rk = (\<lambda>i. py_sorted_desc (zip [0..<length (rows ?cs ! i)] (rows ?cs ! i)))"
  have rows: "\<forall>i<length src. rows ?cs ! i \<noteq> []"
    using assms(2) len by auto
  have km: "\<forall>i<length src. first_max (rows ?cs ! i) (km i)"
    unfolding km_def using rows first_max_exists by (metis (mono_tags, lifting) someI_ex)
  have rk: "\<forall>i<length src. ranking (rows ?cs ! i) (rk i)"
    unfolding rk_def by (simp add: py_sorted_desc_ranking)
  define a1 where "a1 = real (matches ?cs) / real (length src)"
  define a2 where "a2 = real (matches (np_T ?cs)) / real (length src)"
  define out where "out = \<lparr>acc_src2trg = a1, acc_trg2src = a2, score = (a1 + a2) / 2\<rparr>"
  define printed where "printed =
     concat (map (\<lambda>i. if first_max (rows ?cs ! i) i \<or> \<not> pwm then []
                        else mismatch_report ev (rows ?cs ! i) i (km i) (rk i)) [0..<length src])"
  from call_returns[OF assms(1,2,3,4) refl km rk a1_def a2_def, of epoch steps]
  obtain w1 where
    c1u: "call ev model output_path epoch steps w =
            (Inr \<lparr>acc_src2trg = a1, acc_trg2src = a2, score = (a1 + a2) / 2\<rparr>, w1)"
    and conu: "console w1 = console w
       @ concat (map (\<lambda>i. if first_max (rows ?cs ! i) i \<or> \<not> pwm then []
                        else mismatch_report ev (rows ?cs ! i) i (km i) (rk i)) [0..<length src])
       @ diagnostic_lines ?st"
    by (elim exE conjE) (rule that, assumption+)
  have c1: "call ev model output_path epoch steps w = (Inr out, w1)"
    unfolding out_def by (rule c1u)
  have con: "console w1 = console w @ printed @ diagnostic_lines ?st"
    unfolding printed_def by (rule conu)
  have b1: "a1 = real (matches ?cs') / real (length src)"
    and b2: "a2 = real (matches (np_T ?cs')) / real (length src)"
    by (simp_all only: same a1_def a2_def)
  from call_outcome[OF assms(1,2,5,4) refl b1 b2, of epoch steps]
  obtain w2 where
    c2u: "call ev model' output_path epoch steps w =
            (Inr \<lparr>acc_src2trg = a1, acc_trg2src = a2, score = (a1 + a2) / 2\<rparr>, w2)"
    by (elim exE conjE) (rule that, assumption+)
  have c2: "call ev model' output_path epoch steps w = (Inr out, w2)"
    unfolding out_def by (rule c2u)
  have fl: "length (concat e1) = length (concat e2)"
    using flatten_lengths[OF dims] len by (simp add: flatten_def)
  have cosine: "l2_norm (concat e1) \<noteq> 0 \<and> l2_norm (concat e2) \<noteq> 0 \<longrightarrow>
              cosine_scores ?st = [cosine (concat e1) (concat e2)]"
    using sk_cosine[OF fl] by (simp add: flatten_def)
  show ?thesis
  proof (intro exI conjI)
    show "call ev model output_path epoch steps w = (Inr out, w1)" by (rule c1)
    show "diagnostics e1 e2 = Inr ?st" by (rule st)
    show "console w1 = console w @ printed @ diagnostic_lines ?st" by (rule con)
    show "cosine_scores ?st = [1 - paired_cosine_distances (concat e1) (concat e2)]"
      by (simp add: flatten_def)
    show "manhattan_distances ?st = [- paired_manhattan_distances (concat e1) (concat e2)]"
      by (simp add: flatten_def)
    show "euclidean_distances ?st = [- paired_euclidean_distances (concat e1) (concat e2)]"
      by (simp add: flatten_def)
    show "dot_products ?st = [dot (concat e1) (concat e2)]"
      by (simp add: flatten_def)
    show "l2_norm (concat e1) \<noteq> 0 \<and> l2_norm (concat e2) \<noteq> 0 \<longrightarrow>
              cosine_scores ?st = [cosine (concat e1) (concat e2)]" by (rule cosine)
    show "call ev model' output_path epoch steps w = (Inr out, w2)" by (rule c2)
  qed
qed

theorem statistics_of_the_flattened_embeddings_witness:
  "init [''hello'', ''world''] [''bonjour'', ''monde''] False 16 [] True True = Inr demo_evaluator \<and>
   encodes demo_model demo_evaluator 2 [[3, 4], [0, 1]] [[1, 0], [0, 1]] \<and>
   csv_ready demo_evaluator (Some ''out'') demo_world \<and>
   encodes doubled_model demo_evaluator 2 [[6, 8], [0, 2]] [[2, 0], [0, 2]] \<and>
   similarity_matrix [[6, 8], [0, 2]] [[2, 0], [0, 2]] =
     similarity_matrix [[3, 4], [0, 1]] [[1, 0], [0, 1]] \<and>
   dot (concat [[6, 8], [0, 2]]) (concat [[2, 0], [0, 2]]) = 16 \<and>
   (\<exists>out w1 w2 st.
      call demo_evaluator demo_model (Some ''out'') 1 100 demo_world = (Inr out, w1) \<and>
      call demo_evaluator doubled_model (Some ''out'') 1 100 demo_world = (Inr out, w2) \<and>
      diagnostics [[3, 4], [0, 1]] [[1, 0], [0, 1]] = Inr st \<and>
      manhattan_distances st = [- 6] \<and> dot_products st = [4] \<and>
      euclidean_distances st = [- sqrt 20])"
proof -
  have ne: "[''hello'', ''world''] \<noteq> []" by simp
  from statistics_of_the_flattened_embeddings
         [OF demo_init ne demo_encodes demo_csv_ready doubled_encodes doubled_similarity, of 1 100]
  obtain out w1 w2 st where
    c1: "call demo_evaluator demo_model (Some ''out'') 1 100 demo_world = (Inr out, w1)"
    and c2: "call demo_evaluator doubled_model (Some ''out'') 1 100 demo_world = (Inr out, w2)"
    and d: "diagnostics [[3, 4], [0, 1]] [[1, 0], [0, 1]] = Inr st"
    and m: "manhattan_distances st =
              [- paired_manhattan_distances (concat [[3, 4], [0, 1]]) (concat [[1, 0], [0, 1]])]"
    and e: "euclidean_distances st =
              [- paired_euclidean_distances (concat [[3, 4], [0, 1]]) (concat [[1, 0], [0, 1]])]"
    and p: "dot_products st = [dot (concat [[3, 4], [0, 1]]) (concat [[1, 0], [0, 1]])]"
    by (elim exE conjE) (rule that, assumption+)
  have v: "manhattan_distances st = [- 6]" "dot_products st = [4]"
    "euclidean_distances st = [- sqrt 20]"
    by (simp_all add: m e p paired_manhattan_distances_def paired_euclidean_distances_def
        sq_dist_def dot_def)
  have d16: "dot (concat [[6, 8], [0, 2]]) (concat [[2, 0], [0, 2]]) = 16"
    by (simp add: dot_def)
  have "\<exists>out w1 w2 st.
      call demo_evaluator demo_model (Some ''out'') 1 100 demo_world = (Inr out, w1) \<and>
      call demo_evaluator doubled_model (Some ''out'') 1 100 demo_world = (Inr out, w2) \<and>
      diagnostics [[3, 4], [0, 1]] [[1, 0], [0, 1]] = Inr st \<and>
      manhattan_distances st = [- 6] \<and> dot_products st = [4] \<and>
      euclidean_distances st = [- sqrt 20]"
    using c1 c2 d v by (intro exI conjI)
  with demo_init demo_encodes demo_csv_ready doubled_encodes doubled_similarity d16
  show ?thesis by (intro conjI)
qed

text \<open>
  Claim C10. Two evaluators built from the same arguments but for \<open>show_progress_bar\<close>
  and \<open>print_wrong_matches\<close>, called with the same model, return the same two accuracies
  and the same score, write the same file system (so the same CSV rows) and log the same
  lines. The evaluator hands \<open>show_progress_bar\<close> on to the encoder and does nothing else
  with it, so the encoder is taken to be one whose embeddings do not depend on that flag:
  it returns \<open>e1\<close> and \<open>e2\<close> for both evaluators.
\<close>

theorem flags_change_no_result:
  assumes "init src trg spb bs nm pwm wcsv = Inr ev"
    and "init src trg spb' bs nm pwm' wcsv = Inr ev'"
    and "src \<noteq> []"
    and "encodes model ev D e1 e2"
    and "encodes model ev' D e1 e2"
    and "csv_ready ev output_path w"
  shows "\<exists>out w1 w2.
           call ev model output_path epoch steps w = (Inr out, w1) \<and>
           call ev' model output_path epoch steps w = (Inr out, w2) \<and>
           fs w1 = fs w2 \<and> log_lines w1 = log_lines w2"
proof -
  let ?cs = "\<lparr>ncols = length e2, rows = map (\<lambda>u. map (\<lambda>v. cosine u v) e2) e1\<rparr>"
  note ev = init_Inr[OF assms(1)] and ev' = init_Inr[OF assms(2)]
  have fl: "csv_file ev' = csv_file ev" and wr: "write_csv ev' = write_csv ev"
    by (simp_all add: ev(2) ev'(2))
  have csv': "csv_ready ev' output_path w"
    using assms(6) by (simp only: csv_ready_cong[OF fl wr])
  define a1 where "a1 = real (matches ?cs) / real (length src)"
  define a2 where "a2 = real (matches (np_T ?cs)) / real (length src)"
  define out where "out = \<lparr>acc_src2trg = a1, acc_trg2src = a2, score = (a1 + a2) / 2\<rparr>"
  from call_outcome[OF assms(1,3,4,6) refl a1_def a2_def, of epoch steps]
  obtain w1 where c1: "call ev model output_path epoch steps w = (Inr out, w1)"
    and l1: "log_lines w1 = log_lines w
                 @ [[Str ''Evaluating translation matching Accuracy on '', Str nm, Str '' dataset'']
                      @ out_txt epoch steps,
                    [Str ''Accuracy src2trg: '', Fmt 2 (a1 * 100)],
                    [Str ''Accuracy trg2src: '', Fmt 2 (a2 * 100)],
                    [Str ''Evaluating translation similarity'']]"
    and f1: "fs w1 =
                (case output_path of
                   None \<Rightarrow> fs w
                 | Some dir \<Rightarrow>
                     if wcsv
                     then (fs w)(os_path_join dir (csv_file ev) \<mapsto>
                            File ((case fs w (os_path_join dir (csv_file ev)) of
                                     Some (File content) \<Rightarrow> content
                                   | _ \<Rightarrow> [[Str ''epoch'', Str ''steps'', Str ''src2trg'', Str ''trg2src'']])
                                  @ [[Dec epoch, Dec steps, Num a1, Num a2]]))
                     else fs w)"
    unfolding out_def by blast
  from call_outcome[OF assms(2,3,5) csv' refl a1_def a2_def, of epoch steps]
  obtain w2 where c2: "call ev' model output_path epoch steps w = (Inr out, w2)"
    and l2: "log_lines w2 = log_lines w
                 @ [[Str ''Evaluating translation matching Accuracy on '', Str nm, Str '' dataset'']
                      @ out_txt epoch steps,
                    [Str ''Accuracy src2trg: '', Fmt 2 (a1 * 100)],
                    [Str ''Accuracy trg2src: '', Fmt 2 (a2 * 100)],
                    [Str ''Evaluating translation similarity'']]"
    and f2: "fs w2 =
                (case output_path of
                   None \<Rightarrow> fs w
                 | Some dir \<Rightarrow>
                     if wcsv
                     then (fs w)(os_path_join dir (csv_file ev') \<mapsto>
                            File ((case fs w (os_path_join dir (csv_file ev')) of
                                     Some (File content) \<Rightarrow> content
                                   | _ \<Rightarrow> [[Str ''epoch'', Str ''steps'', Str ''src2trg'', Str ''trg2src'']])
                                  @ [[Dec epoch, Dec steps, Num a1, Num a2]]))
                     else fs w)"
    unfolding out_def by blast
  have "fs w1 = fs w2" unfolding f1 f2 fl by (rule refl)
  moreover have "log_lines w1 = log_lines w2" unfolding l1 l2 by (rule refl)
  ultimately show ?thesis using c1 c2 by blast
qed

theorem flags_change_no_result_witness:
  "init [''hello'', ''world''] [''bonjour'', ''monde''] False 16 [] True True = Inr demo_evaluator \<and>
   init [''hello'', ''world''] [''bonjour'', ''monde''] True 16 [] False True =
     Inr (demo_evaluator\<lparr>show_progress_bar := True, print_wrong_matches := False\<rparr>) \<and>
   encodes demo_model demo_evaluator 2 [[3, 4], [0, 1]] [[1, 0], [0, 1]] \<and>
   encodes demo_model (demo_evaluator\<lparr>show_progress_bar := True, print_wrong_matches := False\<rparr>)
     2 [[3, 4], [0, 1]] [[1, 0], [0, 1]] \<and>
   csv_ready demo_evaluator (Some ''out'') demo_world \<and>
   (\<exists>out w1 w2.
      call demo_evaluator demo_model (Some ''out'') 1 100 demo_world = (Inr out, w1) \<and>
      call (demo_evaluator\<lparr>show_progress_bar := True, print_wrong_matches := False\<rparr>)
        demo_model (Some ''out'') 1 100 demo_world = (Inr out, w2) \<and>
      fs w1 = fs w2 \<and> log_lines w1 = log_lines w2)"
proof -
  have ne: "[''hello'', ''world''] \<noteq> []" by simp
  from flags_change_no_result
         [OF demo_init demo_init_flags ne demo_encodes demo_encodes_flags demo_csv_ready, of 1 100]
    demo_init demo_init_flags demo_encodes demo_encodes_flags demo_csv_ready
  show ?thesis by (intro conjI) assumption+
qed

end
